theory Spec2Isabelle
  imports Main
begin

section \<open>Strings and character classes\<close>

text \<open>
  Python's \<open>str\<close> is a sequence of code points. The embedding reads a \<open>char\<close> as one
  code point below 256 (Latin-1), and gives the classes of the \<open>re\<close> module their
  Unicode meaning on that range: \<open>\d\<close> is a decimal digit, \<open>\s\<close> is what
  \<open>str.isspace\<close> accepts, \<open>\w\<close> is an alphanumeric code point or the underscore.
  Paths follow \<open>posixpath\<close>.
\<close>

definition code :: "char \<Rightarrow> nat" where
  "code c = of_char c"

definition is_digit :: "char \<Rightarrow> bool" where
  "is_digit c = (48 \<le> code c \<and> code c \<le> 57)"

definition is_space :: "char \<Rightarrow> bool" where
  "is_space c = (let n = code c in
     (9 \<le> n \<and> n \<le> 13) \<or> (28 \<le> n \<and> n \<le> 32) \<or> n = 133 \<or> n = 160)"

definition is_alnum :: "char \<Rightarrow> bool" where
  "is_alnum c = (let n = code c in
     (48 \<le> n \<and> n \<le> 57) \<or> (65 \<le> n \<and> n \<le> 90) \<or> (97 \<le> n \<and> n \<le> 122) \<or>
     n = 170 \<or> n = 178 \<or> n = 179 \<or> n = 181 \<or> n = 185 \<or> n = 186 \<or>
     (188 \<le> n \<and> n \<le> 190) \<or> (192 \<le> n \<and> n \<le> 214) \<or>
     (216 \<le> n \<and> n \<le> 246) \<or> (248 \<le> n \<and> n \<le> 255))"

definition is_word :: "char \<Rightarrow> bool" where
  "is_word c = (is_alnum c \<or> c = CHR ''_'')"

text \<open>\<open>str.lower\<close> on one code point of the range.\<close>

definition lower_char :: "char \<Rightarrow> char" where
  "lower_char c = (let n = code c in
     if (65 \<le> n \<and> n \<le> 90) \<or> (192 \<le> n \<and> n \<le> 214) \<or> (216 \<le> n \<and> n \<le> 222)
     then char_of (n + 32) else c)"

definition lower :: "string \<Rightarrow> string" where
  "lower s = map lower_char s"

text \<open>\<open>int(token)\<close> on a string of decimal digits.\<close>

definition digit_val :: "char \<Rightarrow> int" where
  "digit_val c = int (code c) - 48"

definition int_of_digits :: "string \<Rightarrow> int" where
  "int_of_digits s = foldl (\<lambda>a c. 10 * a + digit_val c) 0 s"

text \<open>\<open>str(n)\<close> and the format \<open>{n:02}\<close> on an integer.\<close>

fun digits_of :: "nat \<Rightarrow> string" where
  "digits_of n =
     (if n < 10 then [char_of (48 + n)]
      else digits_of (n div 10) @ [char_of (48 + n mod 10)])"

definition str_int :: "int \<Rightarrow> string" where
  "str_int i = (if i < 0 then CHR ''-'' # digits_of (nat (- i)) else digits_of (nat i))"

definition fmt02 :: "int \<Rightarrow> string" where
  "fmt02 i = (let s = str_int i in if length s < 2 then CHR ''0'' # s else s)"

text \<open>\<open>str.strip()\<close> and \<open>str.replace('.', ' ')\<close>.\<close>

definition strip :: "string \<Rightarrow> string" where
  "strip s = rev (dropWhile is_space (rev (dropWhile is_space s)))"

definition replace_dots :: "string \<Rightarrow> string" where
  "replace_dots s = map (\<lambda>c. if c = CHR ''.'' then CHR '' '' else c) s"

text \<open>\<open>' '.join(parts)\<close>.\<close>

fun join_space :: "string list \<Rightarrow> string" where
  "join_space [] = []"
| "join_space [p] = p"
| "join_space (p # q # ps) = p @ CHR '' '' # join_space (q # ps)"

section \<open>Paths (posixpath)\<close>

text \<open>\<open>str.rfind(c)\<close>: the index of the last occurrence, or \<open>-1\<close>.\<close>

fun rfind_from :: "char \<Rightarrow> string \<Rightarrow> int \<Rightarrow> int \<Rightarrow> int" where
  "rfind_from c [] i found = found"
| "rfind_from c (x # xs) i found = rfind_from c xs (i + 1) (if x = c then i else found)"

definition rfind :: "char \<Rightarrow> string \<Rightarrow> int" where
  "rfind c s = rfind_from c s 0 (- 1)"

text \<open>
  \<open>genericpath._splitext\<close>: the extension starts at the last dot of the last path
  component, unless only dots precede it in that component.
\<close>

function skip_leading_dots :: "string \<Rightarrow> nat \<Rightarrow> nat \<Rightarrow> bool" where
  "skip_leading_dots p filenameIndex dotIndex =
     (if filenameIndex < dotIndex
      then (if p ! filenameIndex \<noteq> CHR ''.'' then True
            else skip_leading_dots p (Suc filenameIndex) dotIndex)
      else False)"
  by pat_completeness auto
termination
  by (relation "measure (\<lambda>(p, filenameIndex, dotIndex). dotIndex - filenameIndex)") auto

definition splitext :: "string \<Rightarrow> string \<times> string" where
  "splitext p =
     (let sepIndex = rfind CHR ''/'' p; dotIndex = rfind CHR ''.'' p in
      if dotIndex > sepIndex \<and> skip_leading_dots p (nat (sepIndex + 1)) (nat dotIndex)
      then (take (nat dotIndex) p, drop (nat dotIndex) p)
      else (p, []))"

definition basename :: "string \<Rightarrow> string" where
  "basename p = drop (nat (rfind CHR ''/'' p + 1)) p"

definition dirname :: "string \<Rightarrow> string" where
  "dirname p =
     (let head = take (nat (rfind CHR ''/'' p + 1)) p in
      if head \<noteq> [] \<and> \<not> list_all (\<lambda>c. c = CHR ''/'') head
      then rev (dropWhile (\<lambda>c. c = CHR ''/'') (rev head))
      else head)"

definition path_join :: "string \<Rightarrow> string \<Rightarrow> string" where
  "path_join a b =
     (if b \<noteq> [] \<and> hd b = CHR ''/'' then b
      else if a = [] \<or> last a = CHR ''/'' then a @ b
      else a @ CHR ''/'' # b)"

section \<open>The filename parser (parser.py)\<close>

subsection \<open>\<open>parse_movie\<close>\<close>

record movie_candidate =
  cand_title :: string
  cand_year :: "int option"

text \<open>\<open>re.split(r'[.\s]+', name)\<close>: \<open>cur\<close> holds the token being read, reversed.\<close>

definition is_split_sep :: "char \<Rightarrow> bool" where
  "is_split_sep c = (c = CHR ''.'' \<or> is_space c)"

function split_from :: "string \<Rightarrow> string \<Rightarrow> string list" where
  "split_from cur [] = [rev cur]"
| "split_from cur (c # cs) =
     (if is_split_sep c then rev cur # split_from [] (dropWhile is_split_sep cs)
      else split_from (c # cur) cs)"
  by pat_completeness auto
termination
  by (relation "measure (\<lambda>(cur, s). length s)")
     (auto simp: length_dropWhile_le less_Suc_eq_le)

definition re_split :: "string \<Rightarrow> string list" where
  "re_split name = split_from [] name"

text \<open>\<open>re.fullmatch(r'(19\d{2}|20\d{2})', token)\<close>.\<close>

fun is_year_token :: "string \<Rightarrow> bool" where
  "is_year_token [a, b, c, d] =
     (((a = CHR ''1'' \<and> b = CHR ''9'') \<or> (a = CHR ''2'' \<and> b = CHR ''0'')) \<and>
      is_digit c \<and> is_digit d)"
| "is_year_token _ = False"

text \<open>\<open>re.fullmatch(r'(?:\d{3,4}p|4k)', token, re.IGNORECASE)\<close>.\<close>

definition is_p :: "char \<Rightarrow> bool" where
  "is_p c = (c = CHR ''p'' \<or> c = CHR ''P'')"

definition is_k :: "char \<Rightarrow> bool" where
  "is_k c = (c = CHR ''k'' \<or> c = CHR ''K'')"

fun is_resolution_token :: "string \<Rightarrow> bool" where
  "is_resolution_token [a, b, c, d, e] =
     (is_digit a \<and> is_digit b \<and> is_digit c \<and> is_digit d \<and> is_p e)"
| "is_resolution_token [a, b, c, d] = (is_digit a \<and> is_digit b \<and> is_digit c \<and> is_p d)"
| "is_resolution_token [a, b] = (a = CHR ''4'' \<and> is_k b)"
| "is_resolution_token _ = False"

text \<open>The loop \<open>for idx, token in enumerate(parts)\<close>, returning at the first year token.\<close>

fun find_year :: "string list \<Rightarrow> nat \<Rightarrow> string list \<Rightarrow> movie_candidate option" where
  "find_year parts idx [] = None"
| "find_year parts idx (token # rest) =
     (if is_year_token token
      then Some \<lparr>cand_title = join_space (take idx parts),
                 cand_year = Some (int_of_digits token)\<rparr>
      else find_year parts (Suc idx) rest)"

definition parse_movie :: "string \<Rightarrow> movie_candidate option" where
  "parse_movie filename =
     (let name = fst (splitext filename);
          parts = re_split name
      in case find_year parts 0 parts of
           Some m \<Rightarrow> Some m
         | None \<Rightarrow>
             if length parts \<ge> 2 \<and> is_resolution_token (parts ! 1)
             then Some \<lparr>cand_title = parts ! 0, cand_year = None\<rparr>
             else None)"







subsection \<open>\<open>parse_tv\<close>\<close>

record episode_candidate =
  cand_show :: string
  cand_season :: int
  cand_episode :: int

text \<open>
  The pattern \<open>(?i)(?P<show>.+?)[\W_]+S(?P<season>\d{1,2})E(?P<episode>\d{2})\<close>, matched
  the way the backtracking engine of \<open>re\<close> does it, one function per piece of the pattern.
\<close>

definition is_sep :: "char \<Rightarrow> bool" where
  "is_sep c = (\<not> is_word c \<or> c = CHR ''_'')"

definition is_s :: "char \<Rightarrow> bool" where
  "is_s c = (c = CHR ''S'' \<or> c = CHR ''s'')"

definition is_e :: "char \<Rightarrow> bool" where
  "is_e c = (c = CHR ''E'' \<or> c = CHR ''e'')"

text \<open>\<open>E(?P<episode>\d{2})\<close>.\<close>

fun match_episode :: "string \<Rightarrow> string option" where
  "match_episode (e # x # y # rest) =
     (if is_e e \<and> is_digit x \<and> is_digit y then Some [x, y] else None)"
| "match_episode _ = None"

text \<open>\<open>(?P<season>\d{1,2})\<close> is greedy: two digits are tried first, then one.\<close>

fun match_season2 :: "string \<Rightarrow> (string \<times> string) option" where
  "match_season2 (d1 # d2 # rest) =
     (if is_digit d1 \<and> is_digit d2
      then (case match_episode rest of Some ep \<Rightarrow> Some ([d1, d2], ep) | None \<Rightarrow> None)
      else None)"
| "match_season2 _ = None"

fun match_season1 :: "string \<Rightarrow> (string \<times> string) option" where
  "match_season1 (d1 # rest) =
     (if is_digit d1
      then (case match_episode rest of Some ep \<Rightarrow> Some ([d1], ep) | None \<Rightarrow> None)
      else None)"
| "match_season1 [] = None"

fun match_marker :: "string \<Rightarrow> (string \<times> string) option" where
  "match_marker (c # rest) =
     (if is_s c
      then (case match_season2 rest of Some m \<Rightarrow> Some m | None \<Rightarrow> match_season1 rest)
      else None)"
| "match_marker [] = None"

text \<open>
  \<open>[\W_]+\<close> is greedy: after the first separator, each further separator is consumed
  first, and given back when the rest of the pattern fails behind it.
\<close>

fun match_seps_more :: "string \<Rightarrow> (string \<times> string) option" where
  "match_seps_more [] = match_marker []"
| "match_seps_more (c # rest) =
     (if is_sep c
      then (case match_seps_more rest of Some m \<Rightarrow> Some m | None \<Rightarrow> match_marker (c # rest))
      else match_marker (c # rest))"

fun match_seps :: "string \<Rightarrow> (string \<times> string) option" where
  "match_seps [] = None"
| "match_seps (c # rest) = (if is_sep c then match_seps_more rest else None)"

text \<open>
  \<open>(?P<show>.+?)\<close> is lazy: the rest of the pattern is tried after each character, and
  one more character (any but a newline) is taken only when it fails. \<open>acc\<close> holds the
  show name read so far, reversed.
\<close>

fun match_show :: "string \<Rightarrow> string \<Rightarrow> (string \<times> string \<times> string) option" where
  "match_show acc [] = None"
| "match_show acc (c # rest) =
     (case match_seps (c # rest) of
        Some (se, ep) \<Rightarrow> Some (rev acc, se, ep)
      | None \<Rightarrow> if c = CHR 0x0A then None else match_show (c # acc) rest)"

fun match_at :: "string \<Rightarrow> (string \<times> string \<times> string) option" where
  "match_at [] = None"
| "match_at (c # rest) = (if c = CHR 0x0A then None else match_show [c] rest)"

text \<open>\<open>re.search\<close>: the first start position, from the left, at which the pattern matches.\<close>

fun re_search :: "string \<Rightarrow> (string \<times> string \<times> string) option" where
  "re_search [] = match_at []"
| "re_search (c # rest) =
     (case match_at (c # rest) of Some m \<Rightarrow> Some m | None \<Rightarrow> re_search rest)"

definition parse_tv :: "string \<Rightarrow> episode_candidate option" where
  "parse_tv filename =
     (let name = fst (splitext filename) in
      case re_search name of
        None \<Rightarrow> None
      | Some (sh, se, ep) \<Rightarrow>
          Some \<lparr>cand_show = strip (replace_dots sh),
                 cand_season = int_of_digits se,
                 cand_episode = int_of_digits ep\<rparr>)"



section \<open>The catalog client (tmdb\_client.py)\<close>

text \<open>
  A network call either raises or returns. The exceptions of the program are values of
  \<open>exn\<close>: what \<open>requests\<close> raises (transport failure, \<open>raise_for_status\<close>), the
  \<open>KeyError\<close> of a missing dictionary key, and the \<open>OSError\<close> of a filesystem call. All
  of them are instances of \<open>Exception\<close>, each with its message.
\<close>

datatype exn = RequestException string | KeyError string | OSError string

text \<open>\<open>str(e)\<close>.\<close>

fun exn_text :: "exn \<Rightarrow> string" where
  "exn_text (RequestException m) = m"
| "exn_text (KeyError m) = m"
| "exn_text (OSError m) = m"

text \<open>
  A record of the catalog is a non-empty dictionary with string names and dates and an
  integer identifier; a field of the model is \<open>None\<close> when the key is absent.
\<close>

record show_result =
  res_name :: "string option"
  res_first_air_date :: "string option"
  res_id :: "int option"

record tv_params =
  query :: string
  first_air_date_year :: "int option"

text \<open>\<open>normalize(s)\<close>: \<open>re.sub(r'\W+', '', s or '').lower()\<close>.\<close>

definition normalize_str :: "string option \<Rightarrow> string" where
  "normalize_str s = lower (filter is_word (case s of None \<Rightarrow> [] | Some x \<Rightarrow> x))"

text \<open>The loop \<open>for r in results\<close>, returning the first record with an equal normalized name.\<close>

fun first_exact :: "string \<Rightarrow> show_result list \<Rightarrow> show_result option" where
  "first_exact norm_query [] = None"
| "first_exact norm_query (r # rs) =
     (if normalize_str (res_name r) = norm_query then Some r else first_exact norm_query rs)"

text \<open>
  \<open>TMDBClient.search_tv\<close>. The parameter \<open>get\<close> stands for \<open>requests.get\<close> followed by
  \<open>raise_for_status\<close> and \<open>json()\<close> on the search endpoint: it raises, or returns the
  value of the key \<open>results\<close> of the response (\<open>None\<close> when absent or null).
\<close>

definition search_tv ::
  "(tv_params \<Rightarrow> exn + show_result list option) \<Rightarrow> string \<Rightarrow> int option \<Rightarrow>
   exn + show_result option" where
  "search_tv get title year =
     (let params = \<lparr>query = title,
                     first_air_date_year =
                       (case year of None \<Rightarrow> None | Some y \<Rightarrow> if y \<noteq> 0 then Some y else None)\<rparr>
      in case get params of
           Inl e \<Rightarrow> Inl e
         | Inr data \<Rightarrow>
             (let results = (case data of None \<Rightarrow> [] | Some rs \<Rightarrow> rs) in
              if results = [] then Inr None
              else (case first_exact (normalize_str (Some title)) results of
                      Some r \<Rightarrow> Inr (Some r)
                    | None \<Rightarrow> Inr (Some (results ! 0)))))"

section \<open>The application (main.py)\<close>

subsection \<open>The injected client\<close>

record movie_result =
  mov_title :: "string option"
  mov_release_date :: "string option"
  mov_id :: "int option"

text \<open>
  \<open>self.client\<close>: five network calls. Each call takes the state of the outside world
  (\<open>'s\<close>) and returns the new one, with the value or the exception raised.
\<close>

record 's client =
  client_search_movie :: "string \<Rightarrow> int option \<Rightarrow> 's \<Rightarrow> (exn + movie_result option) \<times> 's"
  client_search_tv :: "string \<Rightarrow> 's \<Rightarrow> (exn + show_result option) \<times> 's"
  client_get_episode_name :: "int \<Rightarrow> int \<Rightarrow> int \<Rightarrow> 's \<Rightarrow> (exn + string option) \<times> 's"
  client_get_movie_imdb_id :: "int option \<Rightarrow> 's \<Rightarrow> (exn + string option) \<times> 's"
  client_get_tv_imdb_id :: "int \<Rightarrow> 's \<Rightarrow> (exn + string option) \<times> 's"

text \<open>\<open>try: x = call(...)\<close> \<open>except Exception: x = None\<close>.\<close>

fun best_effort :: "(exn + 'a option) \<times> 's \<Rightarrow> 'a option \<times> 's" where
  "best_effort (Inl e, st) = (None, st)"
| "best_effort (Inr v, st) = (v, st)"

text \<open>The truth value of an optional string: neither \<open>None\<close> nor empty.\<close>

fun truthy :: "string option \<Rightarrow> bool" where
  "truthy None = False"
| "truthy (Some s) = (s \<noteq> [])"

subsection \<open>\<open>App.get_new_name\<close>\<close>

text \<open>The movie branch (lines 264 to 275).\<close>

definition movie_file_name ::
  "'s client \<Rightarrow> movie_candidate \<Rightarrow> string \<Rightarrow> 's \<Rightarrow> (exn + string) \<times> 's" where
  "movie_file_name c movie ext st =
     (case client_search_movie c (cand_title movie) (cand_year movie) st of
        (Inl e, st1) \<Rightarrow> (Inl e, st1)
      | (Inr (Some result), st1) \<Rightarrow>
          (let title = (case mov_title result of Some t \<Rightarrow> t | None \<Rightarrow> cand_title movie);
               release_date = (case mov_release_date result of Some d \<Rightarrow> d | None \<Rightarrow> []);
               year = take 4 release_date
           in if year \<noteq> [] then (Inr (title @ '' ('' @ year @ '')'' @ ext), st1)
              else (Inr (title @ ext), st1))
      | (Inr None, st1) \<Rightarrow>
          (case cand_year movie of
             Some y \<Rightarrow>
               if y \<noteq> 0 then (Inr (cand_title movie @ '' ('' @ str_int y @ '')'' @ ext), st1)
               else (Inr (cand_title movie @ ext), st1)
           | None \<Rightarrow> (Inr (cand_title movie @ ext), st1)))"

text \<open>
  The episode branch (lines 278 to 293). \<open>result['id']\<close> raises \<open>KeyError\<close> inside the
  \<open>try\<close> when the key is absent, before any call is made.
\<close>

definition tv_file_name ::
  "'s client \<Rightarrow> episode_candidate \<Rightarrow> string \<Rightarrow> 's \<Rightarrow> (exn + string) \<times> 's" where
  "tv_file_name c tv ext st =
     (let season_ep = ''S'' @ fmt02 (cand_season tv) @ ''E'' @ fmt02 (cand_episode tv) in
      case client_search_tv c (cand_show tv) st of
        (Inl e, st1) \<Rightarrow> (Inl e, st1)
      | (Inr (Some result), st1) \<Rightarrow>
          (let show_name = (case res_name result of Some n \<Rightarrow> n | None \<Rightarrow> cand_show tv);
               (ep_name, st2) =
                 (case res_id result of
                    None \<Rightarrow> best_effort (Inl (KeyError ''id''), st1)
                  | Some i \<Rightarrow>
                      best_effort
                        (client_get_episode_name c i (cand_season tv) (cand_episode tv) st1))
           in if truthy ep_name
              then (Inr (show_name @ '' - '' @ season_ep @ '' - '' @ the ep_name @ ext), st2)
              else (Inr (show_name @ '' - '' @ season_ep @ ext), st2))
      | (Inr None, st1) \<Rightarrow> (Inr (cand_show tv @ '' - '' @ season_ep @ ext), st1))"

definition get_new_name :: "'s client \<Rightarrow> string \<Rightarrow> 's \<Rightarrow> (exn + string) \<times> 's" where
  "get_new_name c filename st =
     (let ext = snd (splitext filename) in
      case parse_movie filename of
        Some movie \<Rightarrow> movie_file_name c movie ext st
      | None \<Rightarrow>
          (case parse_tv filename of
             Some tv \<Rightarrow> tv_file_name c tv ext st
           | None \<Rightarrow> (Inr filename, st)))"

subsection \<open>\<open>App.scan_folder\<close>\<close>

text \<open>
  What the scan reads from the disk: whether the selected folder is a directory, the
  entries \<open>os.listdir\<close> gives with their kind, and what \<open>os.walk\<close> yields, each visited
  directory as its path relative to the folder (\<open>os.path.relpath(rootp, folder)\<close>, which is
  \<open>.\<close> for the folder itself) with its file names.
\<close>

datatype kind = Directory | RegularFile | Other

record tree =
  is_dir :: bool
  listdir :: "(string \<times> kind) list"
  walk :: "(string \<times> string list) list"

type_synonym entry = "string \<times> string"

text \<open>
  The outcome of a scan: an error dialog before anything is touched, the two preview lists,
  or an exception that leaves the scan with the lists as they were built so far.
\<close>

datatype scan_result =
  Rejected string
| Scanned "entry list" "entry list"
| Raised exn "entry list" "entry list"

text \<open>The single-movie branch (lines 176 to 193).\<close>

definition scan_movie_root ::
  "'s client \<Rightarrow> string \<Rightarrow> string \<Rightarrow> 's \<Rightarrow> (exn + entry list) \<times> 's" where
  "scan_movie_root c base_name f0 st =
     (case parse_movie f0 of
        None \<Rightarrow> (Inr [], st)
      | Some movie \<Rightarrow>
          (case client_search_movie c (cand_title movie) (cand_year movie) st of
             (Inl e, st1) \<Rightarrow> (Inl e, st1)
           | (Inr None, st1) \<Rightarrow> (Inr [], st1)
           | (Inr (Some result), st1) \<Rightarrow>
               (let title = (case mov_title result of Some t \<Rightarrow> t | None \<Rightarrow> cand_title movie);
                    year = take 4 (case mov_release_date result of Some d \<Rightarrow> d | None \<Rightarrow> []);
                    movie_id = mov_id result;
                    (imdb, st2) = best_effort (client_get_movie_imdb_id c movie_id st1);
                    new_name = title @ '' ('' @ year @ '')''
                in (Inr [(base_name,
                          if truthy imdb then new_name @ '' {imdb-'' @ the imdb @ ''}''
                          else new_name)], st2))))"

text \<open>
  The first loop of the show branch (lines 196 to 204): the first file, in the order of
  the walk, that parses as an episode.
\<close>

fun first_tv_in :: "string list \<Rightarrow> episode_candidate option" where
  "first_tv_in [] = None"
| "first_tv_in (f # files) =
     (case parse_tv f of Some tv \<Rightarrow> Some tv | None \<Rightarrow> first_tv_in files)"

fun first_tv :: "(string \<times> string list) list \<Rightarrow> episode_candidate option" where
  "first_tv [] = None"
| "first_tv ((rootp, files) # dirs) =
     (case first_tv_in files of Some tv \<Rightarrow> Some tv | None \<Rightarrow> first_tv dirs)"

text \<open>
  \<open>season_map\<close> (lines 223 to 232) is a dictionary, which keeps its keys in the order of
  their first insertion: an association list, updated in place.
\<close>

fun dict_set :: "(string \<times> int) list \<Rightarrow> string \<Rightarrow> int \<Rightarrow> (string \<times> int) list" where
  "dict_set [] k v = [(k, v)]"
| "dict_set ((k', v') # m) k v = (if k' = k then (k', v) # m else (k', v') # dict_set m k v)"

fun seasons_in :: "string \<Rightarrow> string list \<Rightarrow> (string \<times> int) list \<Rightarrow> (string \<times> int) list" where
  "seasons_in season_dir [] season_map = season_map"
| "seasons_in season_dir (f # files) season_map =
     (case parse_tv f of
        Some tv \<Rightarrow> seasons_in season_dir files (dict_set season_map season_dir (cand_season tv))
      | None \<Rightarrow> seasons_in season_dir files season_map)"

fun seasons :: "(string \<times> string list) list \<Rightarrow> (string \<times> int) list \<Rightarrow> (string \<times> int) list" where
  "seasons [] season_map = season_map"
| "seasons ((rel, files) # dirs) season_map =
     (if rel = ''.'' then seasons dirs season_map
      else seasons dirs
             (seasons_in (takeWhile (\<lambda>c. c \<noteq> CHR ''/'') rel) files season_map))"

text \<open>The show branch (lines 196 to 235).\<close>

definition scan_show_root ::
  "'s client \<Rightarrow> string \<Rightarrow> (string \<times> string list) list \<Rightarrow> 's \<Rightarrow> (exn + entry list) \<times> 's" where
  "scan_show_root c base_name w st =
     (case first_tv w of
        None \<Rightarrow> (Inr [], st)
      | Some tv_info \<Rightarrow>
          (case client_search_tv c (cand_show tv_info) st of
             (Inl e, st1) \<Rightarrow> (Inl e, st1)
           | (Inr result, st1) \<Rightarrow>
               (let show_name =
                      (case result of
                         Some r \<Rightarrow> (case res_name r of Some n \<Rightarrow> n | None \<Rightarrow> cand_show tv_info)
                       | None \<Rightarrow> cand_show tv_info);
                    year =
                      (case result of
                         Some r \<Rightarrow>
                           (if truthy (res_first_air_date r)
                            then take 4 (the (res_first_air_date r)) else [])
                       | None \<Rightarrow> []);
                    tv_id = (case result of Some r \<Rightarrow> res_id r | None \<Rightarrow> None);
                    (imdb, st2) =
                      (case tv_id of
                         Some i \<Rightarrow>
                           if i \<noteq> 0 then best_effort (client_get_tv_imdb_id c i st1)
                           else (None, st1)
                       | None \<Rightarrow> (None, st1));
                    new_show = (if year \<noteq> [] then show_name @ '' ('' @ year @ '')'' else show_name);
                    season_map = seasons w []
                in (Inr ((base_name,
                          if truthy imdb then new_show @ '' {imdb-'' @ the imdb @ ''}''
                          else new_show)
                         # map (\<lambda>(old_dir, season). (old_dir, ''Season '' @ fmt02 season))
                             season_map), st2))))"

text \<open>
  The file previews (lines 241 to 247); \<open>rel_path\<close> is the expression
  \<open>os.path.join(rel_dir, f) if rel_dir and rel_dir != '.' else f\<close>.
\<close>

definition rel_path :: "string \<Rightarrow> string \<Rightarrow> string" where
  "rel_path rel_dir f = (if rel_dir \<noteq> [] \<and> rel_dir \<noteq> ''.'' then path_join rel_dir f else f)"

fun scan_files_in ::
  "'s client \<Rightarrow> string \<Rightarrow> string list \<Rightarrow> entry list \<Rightarrow> 's \<Rightarrow> (exn option \<times> entry list) \<times> 's" where
  "scan_files_in c rel_dir [] file_preview_list st = ((None, file_preview_list), st)"
| "scan_files_in c rel_dir (f # files) file_preview_list st =
     (case get_new_name c f st of
        (Inl e, st1) \<Rightarrow> ((Some e, file_preview_list), st1)
      | (Inr new_file, st1) \<Rightarrow>
          scan_files_in c rel_dir files
            (file_preview_list @ [(rel_path rel_dir f, rel_path rel_dir new_file)]) st1)"

fun scan_files ::
  "'s client \<Rightarrow> (string \<times> string list) list \<Rightarrow> entry list \<Rightarrow> 's \<Rightarrow>
   (exn option \<times> entry list) \<times> 's" where
  "scan_files c [] file_preview_list st = ((None, file_preview_list), st)"
| "scan_files c ((rel_dir, files) # dirs) file_preview_list st =
     (case scan_files_in c rel_dir files file_preview_list st of
        ((Some e, l), st1) \<Rightarrow> ((Some e, l), st1)
      | ((None, l), st1) \<Rightarrow> scan_files c dirs l st1)"

text \<open>
  The folder previews (lines 169 to 235): the kind of folder is read from its entries, a
  single file and no subdirectory making a movie folder.
\<close>

definition scan_root :: "'s client \<Rightarrow> string \<Rightarrow> tree \<Rightarrow> 's \<Rightarrow> (exn + entry list) \<times> 's" where
  "scan_root c base_name t st =
     (let subdirs = map fst (filter (\<lambda>(d, k). k = Directory) (listdir t));
          files_root = map fst (filter (\<lambda>(f, k). k = RegularFile) (listdir t))
      in if subdirs = [] \<and> length files_root = 1
         then scan_movie_root c base_name (files_root ! 0) st
         else scan_show_root c base_name (walk t) st)"

text \<open>
  \<open>scan_folder\<close>: \<open>api_key\<close> and \<open>folder\<close> are the contents of the two entry fields, and
  \<open>c\<close> the client in use once the key is accepted.
\<close>

definition scan_folder ::
  "'s client \<Rightarrow> string \<Rightarrow> string \<Rightarrow> tree \<Rightarrow> 's \<Rightarrow> scan_result \<times> 's" where
  "scan_folder c api_key folder t st =
     (if strip api_key = []
      then (Rejected ''Please enter your API key in the Configuration panel'', st)
      else if folder = [] \<or> \<not> is_dir t
      then (Rejected ''Please select a valid directory'', st)
      else
        (case scan_root c (basename folder) t st of
           (Inl e, st1) \<Rightarrow> (Raised e [] [], st1)
         | (Inr folder_preview_list, st1) \<Rightarrow>
             (case scan_files c (walk t) [] st1 of
                ((Some e, file_preview_list), st2) \<Rightarrow>
                  (Raised e folder_preview_list file_preview_list, st2)
              | ((None, file_preview_list), st2) \<Rightarrow>
                  (Scanned folder_preview_list file_preview_list, st2))))"

subsection \<open>\<open>App.rename_files\<close>\<close>

text \<open>
  The three filesystem calls of the executor, on a filesystem state \<open>'fs\<close>:
  \<open>os.path.exists\<close>, \<open>os.makedirs(..., exist_ok=True)\<close> and \<open>os.rename\<close>; the last two
  return the exception they raise, if any, and the new state.
\<close>

record 'fs fsops =
  fs_exists :: "string \<Rightarrow> 'fs \<Rightarrow> bool"
  fs_makedirs :: "string \<Rightarrow> 'fs \<Rightarrow> exn option \<times> 'fs"
  fs_rename :: "string \<Rightarrow> string \<Rightarrow> 'fs \<Rightarrow> exn option \<times> 'fs"

datatype dialog = ShowError string string | ShowInfo string string

text \<open>
  The outcome of the executor: the early return on an empty folder field, the end of the
  batch with the recorded errors and the dialog shown, or an exception that no handler
  caught.
\<close>

datatype rename_result =
  Returned_early
| Finished "string list" dialog
| Propagated exn

text \<open>\<open>'\n'.join(errors)\<close>.\<close>

fun join_lines :: "string list \<Rightarrow> string" where
  "join_lines [] = []"
| "join_lines [p] = p"
| "join_lines (p # q # ps) = p @ CHR 0x0A # join_lines (q # ps)"

text \<open>The file loop (lines 305 to 315); \<open>os.makedirs\<close> is called outside the \<open>try\<close>.\<close>

fun rename_file_entries ::
  "'fs fsops \<Rightarrow> string \<Rightarrow> entry list \<Rightarrow> string list \<Rightarrow> 'fs \<Rightarrow> (exn + string list) \<times> 'fs" where
  "rename_file_entries ops folder [] errors fs = (Inr errors, fs)"
| "rename_file_entries ops folder ((orig_rel, new_rel) # rest) errors fs =
     (let src = path_join folder orig_rel;
          dst = path_join folder new_rel;
          dst_dir = dirname dst
      in case (if dst_dir \<noteq> [] \<and> \<not> fs_exists ops dst_dir fs
               then fs_makedirs ops dst_dir fs else (None, fs)) of
           (Some e, fs1) \<Rightarrow> (Inl e, fs1)
         | (None, fs1) \<Rightarrow>
             (case fs_rename ops src dst fs1 of
                (Some e, fs2) \<Rightarrow>
                  rename_file_entries ops folder rest
                    (errors @ [''File '' @ orig_rel @ '': '' @ exn_text e]) fs2
              | (None, fs2) \<Rightarrow> rename_file_entries ops folder rest errors fs2))"

text \<open>The subfolder loop (lines 318 to 327).\<close>

fun rename_subfolders ::
  "'fs fsops \<Rightarrow> string \<Rightarrow> string \<Rightarrow> entry list \<Rightarrow> string list \<Rightarrow> 'fs \<Rightarrow> string list \<times> 'fs" where
  "rename_subfolders ops folder base_name [] errors fs = (errors, fs)"
| "rename_subfolders ops folder base_name ((old_dir, new_dir) # rest) errors fs =
     (if old_dir = base_name then rename_subfolders ops folder base_name rest errors fs
      else
        (case fs_rename ops (path_join folder old_dir) (path_join folder new_dir) fs of
           (Some e, fs1) \<Rightarrow>
             rename_subfolders ops folder base_name rest
               (errors @ [''Folder '' @ old_dir @ '': '' @ exn_text e]) fs1
         | (None, fs1) \<Rightarrow> rename_subfolders ops folder base_name rest errors fs1))"

text \<open>The root loop (lines 329 to 337).\<close>

fun rename_root ::
  "'fs fsops \<Rightarrow> string \<Rightarrow> string \<Rightarrow> entry list \<Rightarrow> string list \<Rightarrow> 'fs \<Rightarrow> string list \<times> 'fs" where
  "rename_root ops folder base_name [] errors fs = (errors, fs)"
| "rename_root ops folder base_name ((old_dir, new_dir) # rest) errors fs =
     (if old_dir = base_name
      then
        (let parent = dirname folder in
         case fs_rename ops folder (path_join parent new_dir) fs of
           (Some e, fs1) \<Rightarrow>
             rename_root ops folder base_name rest
               (errors @ [''Root folder '' @ old_dir @ '': '' @ exn_text e]) fs1
         | (None, fs1) \<Rightarrow> rename_root ops folder base_name rest errors fs1)
      else rename_root ops folder base_name rest errors fs)"

definition rename_files ::
  "'fs fsops \<Rightarrow> string \<Rightarrow> entry list \<Rightarrow> entry list \<Rightarrow> 'fs \<Rightarrow> rename_result \<times> 'fs" where
  "rename_files ops folder file_preview_list folder_preview_list fs =
     (if folder = [] then (Returned_early, fs)
      else
        (case rename_file_entries ops folder file_preview_list [] fs of
           (Inl e, fs1) \<Rightarrow> (Propagated e, fs1)
         | (Inr errors1, fs1) \<Rightarrow>
             (let base_name = basename folder;
                  (errors2, fs2) =
                    rename_subfolders ops folder base_name folder_preview_list errors1 fs1;
                  (errors3, fs3) =
                    rename_root ops folder base_name folder_preview_list errors2 fs2
              in (Finished errors3
                    (if errors3 \<noteq> [] then ShowError ''Errors occurred'' (join_lines errors3)
                     else ShowInfo ''Success'' ''Files renamed successfully''),
                  fs3))))"

section \<open>Observing the calls\<close>

text \<open>
  A client that records, after the state of the outside world, each call made and the
  exception it raised, if any; the answers are those of the client it wraps.
\<close>

datatype lookup = SearchMovie | SearchTv | EpisodeName | MovieImdb | TvImdb

type_synonym event = "lookup \<times> exn option"

fun raised :: "exn + 'a \<Rightarrow> exn option" where
  "raised (Inl e) = Some e"
| "raised (Inr v) = None"

definition record_call ::
  "lookup \<Rightarrow> ('s \<Rightarrow> (exn + 'a) \<times> 's) \<Rightarrow> 's \<times> event list \<Rightarrow> (exn + 'a) \<times> ('s \<times> event list)" where
  "record_call k call = (\<lambda>(st, l). case call st of (r, st') \<Rightarrow> (r, (st', l @ [(k, raised r)])))"

definition logged :: "'s client \<Rightarrow> ('s \<times> event list) client" where
  "logged c =
     \<lparr>client_search_movie = (\<lambda>t y. record_call SearchMovie (client_search_movie c t y)),
      client_search_tv = (\<lambda>t. record_call SearchTv (client_search_tv c t)),
      client_get_episode_name = (\<lambda>i s e. record_call EpisodeName (client_get_episode_name c i s e)),
      client_get_movie_imdb_id = (\<lambda>i. record_call MovieImdb (client_get_movie_imdb_id c i)),
      client_get_tv_imdb_id = (\<lambda>i. record_call TvImdb (client_get_tv_imdb_id c i))\<rparr>"

definition is_search :: "lookup \<Rightarrow> bool" where
  "is_search k = (k = SearchMovie \<or> k = SearchTv)"

text \<open>No search call of the log raised.\<close>

definition quiet :: "event list \<Rightarrow> bool" where
  "quiet evs = list_all (\<lambda>ev. \<not> (is_search (fst ev) \<and> snd ev \<noteq> None)) evs"

text \<open>The last call of the log is a search that raised \<open>e\<close>, and no search before it raised.\<close>

definition ends_in_search_failure :: "exn \<Rightarrow> event list \<Rightarrow> bool" where
  "ends_in_search_failure e evs =
     (evs \<noteq> [] \<and> is_search (fst (last evs)) \<and> snd (last evs) = Some e \<and> quiet (butlast evs))"

text \<open>
  The same client with every secondary lookup (episode title, external id) that raises
  replaced by one that finds nothing.
\<close>

fun absent_on_failure :: "(exn + 'a option) \<times> 's \<Rightarrow> (exn + 'a option) \<times> 's" where
  "absent_on_failure (Inl e, st) = (Inr None, st)"
| "absent_on_failure (Inr v, st) = (Inr v, st)"

definition tolerant :: "'s client \<Rightarrow> 's client" where
  "tolerant c =
     \<lparr>client_search_movie = client_search_movie c,
      client_search_tv = client_search_tv c,
      client_get_episode_name = (\<lambda>i s e st. absent_on_failure (client_get_episode_name c i s e st)),
      client_get_movie_imdb_id = (\<lambda>i st. absent_on_failure (client_get_movie_imdb_id c i st)),
      client_get_tv_imdb_id = (\<lambda>i st. absent_on_failure (client_get_tv_imdb_id c i st))\<rparr>"

text \<open>The files of a walk, each with its relative directory, in the order of the traversal.\<close>

definition walk_files :: "(string \<times> string list) list \<Rightarrow> (string \<times> string) list" where
  "walk_files w = concat (map (\<lambda>(rel_dir, files). map (Pair rel_dir) files) w)"

text \<open>A catalog that finds nothing, as for titles it does not know.\<close>

definition offline :: "unit client" where
  "offline =
     \<lparr>client_search_movie = (\<lambda>t y st. (Inr None, st)),
      client_search_tv = (\<lambda>t st. (Inr None, st)),
      client_get_episode_name = (\<lambda>i s e st. (Inr None, st)),
      client_get_movie_imdb_id = (\<lambda>i st. (Inr None, st)),
      client_get_tv_imdb_id = (\<lambda>i st. (Inr None, st))\<rparr>"

text \<open>
  A filesystem that records, after its state, the calls that change it, in order; the
  results are those of the filesystem it wraps.
\<close>

datatype fs_call = Makedirs string | Rename string string

definition probe :: "'fs fsops \<Rightarrow> ('fs \<times> fs_call list) fsops" where
  "probe ops =
     \<lparr>fs_exists = (\<lambda>p (fs, l). fs_exists ops p fs),
      fs_makedirs = (\<lambda>p (fs, l). case fs_makedirs ops p fs of (r, fs') \<Rightarrow> (r, (fs', l @ [Makedirs p]))),
      fs_rename = (\<lambda>src dst (fs, l).
         case fs_rename ops src dst fs of (r, fs') \<Rightarrow> (r, (fs', l @ [Rename src dst])))\<rparr>"

fun is_rename :: "fs_call \<Rightarrow> bool" where
  "is_rename (Rename src dst) = True"
| "is_rename (Makedirs p) = False"

text \<open>
  The order of renames the specification gives for a plan: the file entries, then the
  folder entries other than the root, then the root entries, as siblings of the root.
\<close>

definition planned_renames :: "string \<Rightarrow> entry list \<Rightarrow> entry list \<Rightarrow> fs_call list" where
  "planned_renames folder file_entries folder_entries =
     map (\<lambda>(orig_rel, new_rel). Rename (path_join folder orig_rel) (path_join folder new_rel))
       file_entries @
     map (\<lambda>(old_dir, new_dir). Rename (path_join folder old_dir) (path_join folder new_dir))
       (filter (\<lambda>(old_dir, new_dir). old_dir \<noteq> basename folder) folder_entries) @
     map (\<lambda>(old_dir, new_dir). Rename folder (path_join (dirname folder) new_dir))
       (filter (\<lambda>(old_dir, new_dir). old_dir = basename folder) folder_entries)"

text \<open>
  A log agrees with an outcome: when nothing was raised no search of the log failed, and
  when \<open>e\<close> was raised the log ends in the search that raised it.
\<close>

fun log_matches :: "exn option \<Rightarrow> event list \<Rightarrow> bool" where
  "log_matches None evs = quiet evs"
| "log_matches (Some e) evs = ends_in_search_failure e evs"

fun scan_raised :: "scan_result \<Rightarrow> exn option" where
  "scan_raised (Raised e folder_entries file_entries) = Some e"
| "scan_raised (Scanned folder_entries file_entries) = None"
| "scan_raised (Rejected msg) = None"

text \<open>
  Two catalogs for trying the scan: one whose searches fail, and one that knows every
  title but whose secondary lookups fail.
\<close>

definition down :: "unit client" where
  "down =
     \<lparr>client_search_movie = (\<lambda>t y st. (Inl (RequestException ''timeout''), st)),
      client_search_tv = (\<lambda>t st. (Inl (RequestException ''timeout''), st)),
      client_get_episode_name = (\<lambda>i s e st. (Inr None, st)),
      client_get_movie_imdb_id = (\<lambda>i st. (Inr None, st)),
      client_get_tv_imdb_id = (\<lambda>i st. (Inr None, st))\<rparr>"

definition flaky :: "unit client" where
  "flaky =
     \<lparr>client_search_movie = (\<lambda>t y st.
         (Inr (Some \<lparr>mov_title = Some t, mov_release_date = Some ''2010-07-16'',
                      mov_id = Some 27205\<rparr>), st)),
      client_search_tv = (\<lambda>t st.
         (Inr (Some \<lparr>res_name = Some t, res_first_air_date = Some ''2008-01-20'',
                      res_id = Some 1396\<rparr>), st)),
      client_get_episode_name = (\<lambda>i s e st. (Inl (RequestException ''timeout''), st)),
      client_get_movie_imdb_id = (\<lambda>i st. (Inl (RequestException ''timeout''), st)),
      client_get_tv_imdb_id = (\<lambda>i st. (Inl (RequestException ''timeout''), st))\<rparr>"

text \<open>A catalog that answers every movie search with a title that holds a slash.\<close>

definition faceoff :: "unit client" where
  "faceoff =
     \<lparr>client_search_movie = (\<lambda>t y st.
         (Inr (Some \<lparr>mov_title = Some ''Face/Off'', mov_release_date = Some ''1997-06-27'',
                      mov_id = Some 754\<rparr>), st)),
      client_search_tv = (\<lambda>t st. (Inr None, st)),
      client_get_episode_name = (\<lambda>i s e st. (Inr None, st)),
      client_get_movie_imdb_id = (\<lambda>i st. (Inr None, st)),
      client_get_tv_imdb_id = (\<lambda>i st. (Inr None, st))\<rparr>"

text \<open>
  Two filesystems for trying the executor, with the list of the existing paths as state:
  one where every call succeeds on an existing source, and a read-only one.
\<close>

definition plain_fs :: "string list fsops" where
  "plain_fs =
     \<lparr>fs_exists = (\<lambda>p fs. p \<in> set fs),
      fs_makedirs = (\<lambda>p fs. (None, p # fs)),
      fs_rename = (\<lambda>src dst fs.
         if src \<in> set fs then (None, dst # remove1 src fs)
         else (Some (OSError ''No such file or directory''), fs))\<rparr>"

definition readonly_fs :: "string list fsops" where
  "readonly_fs =
     \<lparr>fs_exists = (\<lambda>p fs. p \<in> set fs),
      fs_makedirs = (\<lambda>p fs. (Some (OSError ''Permission denied''), fs)),
      fs_rename = (\<lambda>src dst fs. (Some (OSError ''Permission denied''), fs))\<rparr>"

section \<open>Properties of the parser\<close>

subsection \<open>\<open>parse_movie\<close> agrees with its specification\<close>





















subsection \<open>\<open>parse_tv\<close> finds the leftmost, shortest episode pattern\<close>





























section \<open>Properties of the catalog client\<close>

lemma first_exact_Some:
  "i < length rs \<Longrightarrow> normalize_str (res_name (rs ! i)) = q \<Longrightarrow>
   (\<forall>j<i. normalize_str (res_name (rs ! j)) \<noteq> q) \<Longrightarrow> first_exact q rs = Some (rs ! i)"
proof (induction rs arbitrary: i)
  case Nil
  then show ?case by simp
next
  case (Cons r rs)
  show ?case
  proof (cases i)
    case 0
    then show ?thesis using Cons.prems by simp
  next
    case (Suc i')
    have "\<forall>j<i'. normalize_str (res_name (rs ! j)) \<noteq> q"
    proof (intro allI impI)
      fix j assume "j < i'"
      then have "Suc j < i" using Suc by simp
      then show "normalize_str (res_name (rs ! j)) \<noteq> q"
        using Cons.prems(3) by fastforce
    qed
    moreover have "i' < length rs" "normalize_str (res_name (rs ! i')) = q"
      using Cons.prems Suc by auto
    ultimately have "first_exact q rs = Some (rs ! i')"
      using Cons.IH[of i'] by blast
    moreover have "normalize_str (res_name r) \<noteq> q" using Cons.prems(3) Suc by auto
    ultimately show ?thesis using Suc by simp
  qed
qed

lemma first_exact_None:
  "(\<forall>r\<in>set rs. normalize_str (res_name r) \<noteq> q) \<Longrightarrow> first_exact q rs = None"
  by (induction rs) auto

text \<open>
  Claim C8. For every query title and every catalog response, \<open>search_tv\<close> returns none
  when the result set is empty; otherwise it returns the first result whose normalized
  name (non-word characters removed, lowercased) equals the normalized query, and the
  first-ranked result when no result does.
\<close>

theorem search_tv_selection:
  assumes "get \<lparr>query = title,
                 first_air_date_year =
                   (case year of None \<Rightarrow> None | Some y \<Rightarrow> if y \<noteq> 0 then Some y else None)\<rparr>
             = Inr data"
    and "results = (case data of None \<Rightarrow> [] | Some rs \<Rightarrow> rs)"
  shows "(results = [] \<longrightarrow> search_tv get title year = Inr None) \<and>
    (\<forall>i<length results.
        normalize_str (res_name (results ! i)) = normalize_str (Some title) \<and>
        (\<forall>j<i. normalize_str (res_name (results ! j)) \<noteq> normalize_str (Some title)) \<longrightarrow>
        search_tv get title year = Inr (Some (results ! i))) \<and>
    (results \<noteq> [] \<and>
     (\<forall>r\<in>set results. normalize_str (res_name r) \<noteq> normalize_str (Some title)) \<longrightarrow>
        search_tv get title year = Inr (Some (hd results)))"
proof (intro conjI allI impI)
  assume "results = []"
  then show "search_tv get title year = Inr None"
    using assms by (simp add: search_tv_def)
next
  fix i
  assume i: "i < length results"
    and "normalize_str (res_name (results ! i)) = normalize_str (Some title) \<and>
        (\<forall>j<i. normalize_str (res_name (results ! j)) \<noteq> normalize_str (Some title))"
  then have "first_exact (normalize_str (Some title)) results = Some (results ! i)"
    by (intro first_exact_Some) auto
  moreover have "results \<noteq> []" using i by auto
  ultimately show "search_tv get title year = Inr (Some (results ! i))"
    using assms by (simp add: search_tv_def)
next
  assume a: "results \<noteq> [] \<and>
     (\<forall>r\<in>set results. normalize_str (res_name r) \<noteq> normalize_str (Some title))"
  then have "first_exact (normalize_str (Some title)) results = None"
    by (intro first_exact_None) auto
  then show "search_tv get title year = Inr (Some (hd results))"
    using assms a by (simp add: search_tv_def hd_conv_nth)
qed


theorem search_tv_selection_witness:
  "search_tv
     (\<lambda>p. Inr (Some [\<lparr>res_name = Some ''The Office (UK)'', res_first_air_date = None, res_id = Some 1\<rparr>,
                      \<lparr>res_name = Some ''the office'', res_first_air_date = None, res_id = Some 2\<rparr>]))
     ''The Office'' None =
   Inr (Some \<lparr>res_name = Some ''the office'', res_first_air_date = None, res_id = Some 2\<rparr>) \<and>
   search_tv (\<lambda>p. Inr (Some [])) ''The Office'' None = Inr None \<and>
   search_tv
     (\<lambda>p. Inr (Some [\<lparr>res_name = Some ''The Office (UK)'', res_first_air_date = None, res_id = Some 1\<rparr>]))
     ''The Office'' None =
   Inr (Some \<lparr>res_name = Some ''The Office (UK)'', res_first_air_date = None, res_id = Some 1\<rparr>)"
proof -
  let ?r1 = "\<lparr>res_name = Some ''The Office (UK)'', res_first_air_date = None, res_id = Some 1\<rparr>"
  let ?r2 = "\<lparr>res_name = Some ''the office'', res_first_air_date = None, res_id = Some 2\<rparr>"
  have a: "normalize_str (Some ''the office'') = normalize_str (Some ''The Office'')"
    by code_simp
  have b: "normalize_str (Some ''The Office (UK)'') \<noteq> normalize_str (Some ''The Office'')"
    by code_simp
  have 1: "search_tv (\<lambda>p. Inr (Some [?r1, ?r2])) ''The Office'' None = Inr (Some ?r2)"
    using search_tv_selection[of "\<lambda>p. Inr (Some [?r1, ?r2])" "''The Office''" None
        "Some [?r1, ?r2]" "[?r1, ?r2]"] a b
    by (auto simp: less_Suc_eq dest!: spec[of _ 1])
  have 2: "search_tv (\<lambda>p. Inr (Some [])) ''The Office'' None = Inr None"
    using search_tv_selection[of "\<lambda>p. Inr (Some [])" "''The Office''" None "Some []" "[]"]
    by simp
  have 3: "search_tv (\<lambda>p. Inr (Some [?r1])) ''The Office'' None = Inr (Some ?r1)"
    using search_tv_selection[of "\<lambda>p. Inr (Some [?r1])" "''The Office''" None
        "Some [?r1]" "[?r1]"] b
    by simp
  show ?thesis using 1 2 3 by simp
qed


section \<open>Properties of the scan\<close>

subsection \<open>What the recording client sees\<close>

lemma logged_search_movie:
  "client_search_movie (logged c) t y (st, l) =
     (fst (client_search_movie c t y st),
      (snd (client_search_movie c t y st), l @ [(SearchMovie, raised (fst (client_search_movie c t y st)))]))"
  by (simp add: logged_def record_call_def split: prod.splits)

lemma logged_search_tv:
  "client_search_tv (logged c) t (st, l) =
     (fst (client_search_tv c t st),
      (snd (client_search_tv c t st), l @ [(SearchTv, raised (fst (client_search_tv c t st)))]))"
  by (simp add: logged_def record_call_def split: prod.splits)

lemma logged_get_episode_name:
  "client_get_episode_name (logged c) i s e (st, l) =
     (fst (client_get_episode_name c i s e st),
      (snd (client_get_episode_name c i s e st),
       l @ [(EpisodeName, raised (fst (client_get_episode_name c i s e st)))]))"
  by (simp add: logged_def record_call_def split: prod.splits)

lemma logged_get_movie_imdb_id:
  "client_get_movie_imdb_id (logged c) i (st, l) =
     (fst (client_get_movie_imdb_id c i st),
      (snd (client_get_movie_imdb_id c i st),
       l @ [(MovieImdb, raised (fst (client_get_movie_imdb_id c i st)))]))"
  by (simp add: logged_def record_call_def split: prod.splits)

lemma logged_get_tv_imdb_id:
  "client_get_tv_imdb_id (logged c) i (st, l) =
     (fst (client_get_tv_imdb_id c i st),
      (snd (client_get_tv_imdb_id c i st),
       l @ [(TvImdb, raised (fst (client_get_tv_imdb_id c i st)))]))"
  by (simp add: logged_def record_call_def split: prod.splits)

lemma movie_file_name_logged:
  "movie_file_name (logged c) movie ext (st, l) =
     (fst (movie_file_name c movie ext st),
      (snd (movie_file_name c movie ext st),
       l @ [(SearchMovie, raised (fst (client_search_movie c (cand_title movie) (cand_year movie) st)))]))"
  by (cases "client_search_movie c (cand_title movie) (cand_year movie) st")
     (auto simp: movie_file_name_def logged_search_movie Let_def
           split: sum.splits option.splits)

lemma movie_file_name_raised:
  "raised (fst (movie_file_name c movie ext st)) =
     raised (fst (client_search_movie c (cand_title movie) (cand_year movie) st))"
  by (cases "client_search_movie c (cand_title movie) (cand_year movie) st")
     (auto simp: movie_file_name_def Let_def split: sum.splits option.splits)


lemma quiet_Nil: "quiet []"
  by (simp add: quiet_def)

lemma quiet_append: "quiet (a @ b) \<longleftrightarrow> quiet a \<and> quiet b"
  by (simp add: quiet_def)

lemma quiet_secondary: "\<not> is_search k \<Longrightarrow> quiet [(k, r)]"
  by (simp add: quiet_def)

lemma quiet_ok: "quiet [(k, None)]"
  by (simp add: quiet_def)

lemma search_failure_single: "is_search k \<Longrightarrow> ends_in_search_failure e [(k, Some e)]"
  by (simp add: ends_in_search_failure_def quiet_def)

lemma log_matches_append:
  "quiet a \<Longrightarrow> log_matches x b \<Longrightarrow> log_matches x (a @ b)"
  by (cases x) (auto simp: quiet_append ends_in_search_failure_def butlast_append)

lemma log_matches_single_search:
  "is_search k \<Longrightarrow> log_matches r [(k, r)]"
  by (cases r) (auto simp: quiet_ok search_failure_single)

lemma movie_file_name_log:
  "log_matches (raised (fst (movie_file_name c movie ext st)))
     [(SearchMovie, raised (fst (client_search_movie c (cand_title movie) (cand_year movie) st)))]"
  by (simp add: movie_file_name_raised log_matches_single_search is_search_def)

lemma tv_file_name_logged:
  "\<exists>evs. tv_file_name (logged c) tv ext (st, l) =
       (fst (tv_file_name c tv ext st), (snd (tv_file_name c tv ext st), l @ evs)) \<and>
     log_matches (raised (fst (tv_file_name c tv ext st))) evs \<and>
     evs \<noteq> [] \<and> fst (hd evs) = SearchTv"
proof -
  obtain r st1 where s: "client_search_tv c (cand_show tv) st = (r, st1)"
    by (cases "client_search_tv c (cand_show tv) st") auto
  show ?thesis
  proof (cases r)
    case (Inl e)
    then show ?thesis using s
      by (intro exI[of _ "[(SearchTv, Some e)]"])
         (simp add: tv_file_name_def logged_search_tv Let_def search_failure_single is_search_def)
  next
    case (Inr v)
    show ?thesis
    proof (cases v)
      case None
      then show ?thesis using s Inr
        by (intro exI[of _ "[(SearchTv, None)]"])
           (simp add: tv_file_name_def logged_search_tv Let_def quiet_ok)
    next
      case (Some result)
      show ?thesis
      proof (cases "res_id result")
        case None
        then show ?thesis using s Inr Some
          by (intro exI[of _ "[(SearchTv, None)]"])
             (simp add: tv_file_name_def logged_search_tv Let_def quiet_ok)
      next
        case (Some i)
        obtain r2 st2 where e: "client_get_episode_name c i (cand_season tv) (cand_episode tv) st1 = (r2, st2)"
          by (cases "client_get_episode_name c i (cand_season tv) (cand_episode tv) st1") auto
        show ?thesis using s Inr \<open>v = Some result\<close> Some e
          by (intro exI[of _ "[(SearchTv, None), (EpisodeName, raised r2)]"])
             (cases r2; simp add: tv_file_name_def logged_search_tv logged_get_episode_name
                Let_def quiet_def is_search_def)
      qed
    qed
  qed
qed


lemma get_new_name_logged:
  "\<exists>evs. get_new_name (logged c) f (st, l) =
       (fst (get_new_name c f st), (snd (get_new_name c f st), l @ evs)) \<and>
     log_matches (raised (fst (get_new_name c f st))) evs"
proof (cases "parse_movie f")
  case (Some movie)
  then show ?thesis
    using movie_file_name_log[of c movie "snd (splitext f)" st]
    by (intro exI[of _ "[(SearchMovie,
          raised (fst (client_search_movie c (cand_title movie) (cand_year movie) st)))]"])
       (simp add: get_new_name_def movie_file_name_logged Let_def)
next
  case None
  show ?thesis
  proof (cases "parse_tv f")
    case None
    then show ?thesis using \<open>parse_movie f = None\<close>
      by (intro exI[of _ "[]"]) (simp add: get_new_name_def quiet_Nil Let_def)
  next
    case (Some tv)
    from tv_file_name_logged[of c tv "snd (splitext f)" st l]
    show ?thesis using Some \<open>parse_movie f = None\<close>
      by (auto simp: get_new_name_def Let_def)
  qed
qed

lemma scan_files_in_logged:
  "\<exists>evs. scan_files_in (logged c) rel_dir files acc (st, l) =
       (fst (scan_files_in c rel_dir files acc st),
        (snd (scan_files_in c rel_dir files acc st), l @ evs)) \<and>
     log_matches (fst (fst (scan_files_in c rel_dir files acc st))) evs"
proof (induction files arbitrary: acc st l)
  case Nil
  then show ?case by (intro exI[of _ "[]"]) (simp add: quiet_Nil)
next
  case (Cons f files)
  obtain r st1 where g: "get_new_name c f st = (r, st1)"
    by (cases "get_new_name c f st") auto
  from get_new_name_logged[of c f st l] g obtain evs1 where
    g': "get_new_name (logged c) f (st, l) = (r, (st1, l @ evs1))"
    and m1: "log_matches (raised r) evs1" by auto
  show ?case
  proof (cases r)
    case (Inl e)
    then show ?thesis using g g' m1 by (intro exI[of _ evs1]) simp
  next
    case (Inr new_file)
    let ?acc = "acc @ [(rel_path rel_dir f, rel_path rel_dir new_file)]"
    from Cons.IH[of ?acc st1 "l @ evs1"] obtain evs2 where
      i: "scan_files_in (logged c) rel_dir files ?acc (st1, l @ evs1) =
           (fst (scan_files_in c rel_dir files ?acc st1),
            (snd (scan_files_in c rel_dir files ?acc st1), (l @ evs1) @ evs2))"
      and m2: "log_matches (fst (fst (scan_files_in c rel_dir files ?acc st1))) evs2" by blast
    have "quiet evs1" using m1 Inr by simp
    then have "log_matches (fst (fst (scan_files_in c rel_dir files ?acc st1))) (evs1 @ evs2)"
      using m2 by (rule log_matches_append)
    then show ?thesis using g g' Inr i by (intro exI[of _ "evs1 @ evs2"]) simp
  qed
qed

lemma scan_files_logged:
  "\<exists>evs. scan_files (logged c) w acc (st, l) =
       (fst (scan_files c w acc st), (snd (scan_files c w acc st), l @ evs)) \<and>
     log_matches (fst (fst (scan_files c w acc st))) evs"
proof (induction w arbitrary: acc st l)
  case Nil
  then show ?case by (intro exI[of _ "[]"]) (simp add: quiet_Nil)
next
  case (Cons d dirs)
  obtain rel_dir files where d: "d = (rel_dir, files)" by (cases d) auto
  obtain x acc1 st1 where g: "scan_files_in c rel_dir files acc st = ((x, acc1), st1)"
    by (cases "scan_files_in c rel_dir files acc st") auto
  from scan_files_in_logged[of c rel_dir files acc st l] g obtain evs1 where
    g': "scan_files_in (logged c) rel_dir files acc (st, l) = ((x, acc1), (st1, l @ evs1))"
    and m1: "log_matches x evs1" by auto
  show ?case
  proof (cases x)
    case (Some e)
    then show ?thesis using d g g' m1 by (intro exI[of _ evs1]) simp
  next
    case None
    from Cons.IH[of acc1 st1 "l @ evs1"] obtain evs2 where
      i: "scan_files (logged c) dirs acc1 (st1, l @ evs1) =
           (fst (scan_files c dirs acc1 st1), (snd (scan_files c dirs acc1 st1), (l @ evs1) @ evs2))"
      and m2: "log_matches (fst (fst (scan_files c dirs acc1 st1))) evs2" by blast
    have "quiet evs1" using m1 None by simp
    then have "log_matches (fst (fst (scan_files c dirs acc1 st1))) (evs1 @ evs2)"
      using m2 by (rule log_matches_append)
    then show ?thesis using d g g' None i by (intro exI[of _ "evs1 @ evs2"]) simp
  qed
qed


lemma scan_movie_root_logged:
  "\<exists>evs. scan_movie_root (logged c) base_name f0 (st, l) =
       (fst (scan_movie_root c base_name f0 st),
        (snd (scan_movie_root c base_name f0 st), l @ evs)) \<and>
     log_matches (raised (fst (scan_movie_root c base_name f0 st))) evs"
proof (cases "parse_movie f0")
  case None
  then show ?thesis
    by (intro exI[of _ "[]"]) (simp add: scan_movie_root_def quiet_Nil)
next
  case (Some movie)
  obtain r st1 where s: "client_search_movie c (cand_title movie) (cand_year movie) st = (r, st1)"
    by (cases "client_search_movie c (cand_title movie) (cand_year movie) st") auto
  show ?thesis
  proof (cases r)
    case (Inl e)
    then show ?thesis using s Some
      by (intro exI[of _ "[(SearchMovie, Some e)]"])
         (simp add: scan_movie_root_def logged_search_movie search_failure_single is_search_def)
  next
    case (Inr v)
    show ?thesis
    proof (cases v)
      case None
      then show ?thesis using s Inr Some
        by (intro exI[of _ "[(SearchMovie, None)]"])
           (simp add: scan_movie_root_def logged_search_movie quiet_ok)
    next
      case (Some result)
      obtain r2 st2 where e: "client_get_movie_imdb_id c (mov_id result) st1 = (r2, st2)"
        by (cases "client_get_movie_imdb_id c (mov_id result) st1") auto
      show ?thesis using s Inr \<open>parse_movie f0 = Some movie\<close> Some e
        by (intro exI[of _ "[(SearchMovie, None), (MovieImdb, raised r2)]"])
           (cases r2; simp add: scan_movie_root_def logged_search_movie logged_get_movie_imdb_id
              Let_def quiet_def is_search_def)
    qed
  qed
qed

lemma scan_show_root_logged:
  "\<exists>evs. scan_show_root (logged c) base_name w (st, l) =
       (fst (scan_show_root c base_name w st),
        (snd (scan_show_root c base_name w st), l @ evs)) \<and>
     log_matches (raised (fst (scan_show_root c base_name w st))) evs"
proof (cases "first_tv w")
  case None
  then show ?thesis
    by (intro exI[of _ "[]"]) (simp add: scan_show_root_def quiet_Nil)
next
  case (Some tv_info)
  obtain r st1 where s: "client_search_tv c (cand_show tv_info) st = (r, st1)"
    by (cases "client_search_tv c (cand_show tv_info) st") auto
  show ?thesis
  proof (cases r)
    case (Inl e)
    then show ?thesis using s Some
      by (intro exI[of _ "[(SearchTv, Some e)]"])
         (simp add: scan_show_root_def logged_search_tv search_failure_single is_search_def)
  next
    case (Inr result)
    let ?tv_id = "case result of Some r \<Rightarrow> res_id r | None \<Rightarrow> None"
    show ?thesis
    proof (cases "\<exists>i. ?tv_id = Some i \<and> i \<noteq> 0")
      case False
      then have "?tv_id = None \<or> ?tv_id = Some 0" by (cases ?tv_id) auto
      then show ?thesis using s Inr Some
        by (intro exI[of _ "[(SearchTv, None)]"])
           (auto simp: scan_show_root_def logged_search_tv Let_def quiet_ok)
    next
      case True
      then obtain i where i: "?tv_id = Some i" "i \<noteq> 0" by blast
      obtain r2 st2 where e: "client_get_tv_imdb_id c i st1 = (r2, st2)"
        by (cases "client_get_tv_imdb_id c i st1") auto
      show ?thesis using s Inr Some i e
        by (intro exI[of _ "[(SearchTv, None), (TvImdb, raised r2)]"])
           (cases r2; simp add: scan_show_root_def logged_search_tv logged_get_tv_imdb_id
              Let_def quiet_def is_search_def)
    qed
  qed
qed

lemma scan_root_logged:
  "\<exists>evs. scan_root (logged c) base_name t (st, l) =
       (fst (scan_root c base_name t st), (snd (scan_root c base_name t st), l @ evs)) \<and>
     log_matches (raised (fst (scan_root c base_name t st))) evs"
proof (cases "map fst (filter (\<lambda>(d, k). k = Directory) (listdir t)) = [] \<and>
    length (map fst (filter (\<lambda>(f, k). k = RegularFile) (listdir t))) = 1")
  case True
  let ?f0 = "map fst (filter (\<lambda>(f, k). k = RegularFile) (listdir t)) ! 0"
  have a: "scan_root c base_name t st = scan_movie_root c base_name ?f0 st"
    using True by (simp add: scan_root_def Let_def)
  have b: "scan_root (logged c) base_name t (st, l) = scan_movie_root (logged c) base_name ?f0 (st, l)"
    using True by (simp add: scan_root_def Let_def)
  show ?thesis unfolding a b by (rule scan_movie_root_logged)
next
  case False
  have a: "scan_root c base_name t st = scan_show_root c base_name (walk t) st"
    using False by (auto simp: scan_root_def Let_def)
  have b: "scan_root (logged c) base_name t (st, l) =
      scan_show_root (logged c) base_name (walk t) (st, l)"
    using False by (auto simp: scan_root_def Let_def)
  show ?thesis unfolding a b by (rule scan_show_root_logged)
qed

lemma scan_folder_logged:
  "\<exists>evs. scan_folder (logged c) api_key folder t (st, l) =
       (fst (scan_folder c api_key folder t st),
        (snd (scan_folder c api_key folder t st), l @ evs)) \<and>
     log_matches (scan_raised (fst (scan_folder c api_key folder t st))) evs"
proof (cases "strip api_key = [] \<or> folder = [] \<or> \<not> is_dir t")
  case True
  then show ?thesis
    by (intro exI[of _ "[]"]) (auto simp: scan_folder_def quiet_Nil)
next
  case False
  obtain r st1 where g: "scan_root c (basename folder) t st = (r, st1)"
    by (cases "scan_root c (basename folder) t st") auto
  from scan_root_logged[of c "basename folder" t st l] g obtain evs1 where
    g': "scan_root (logged c) (basename folder) t (st, l) = (r, (st1, l @ evs1))"
    and m1: "log_matches (raised r) evs1" by auto
  show ?thesis
  proof (cases r)
    case (Inl e)
    have a: "scan_folder c api_key folder t st = (Raised e [] [], st1)"
      using False g Inl by (simp add: scan_folder_def)
    have b: "scan_folder (logged c) api_key folder t (st, l) = (Raised e [] [], (st1, l @ evs1))"
      using False g' Inl by (simp add: scan_folder_def)
    show ?thesis using a b m1 Inl by (intro exI[of _ evs1]) simp
  next
    case (Inr fo)
    obtain x fi st2 where h: "scan_files c (walk t) [] st1 = ((x, fi), st2)"
      by (cases "scan_files c (walk t) [] st1") auto
    from scan_files_logged[of c "walk t" "[]" st1 "l @ evs1"] h obtain evs2 where
      h': "scan_files (logged c) (walk t) [] (st1, l @ evs1) = ((x, fi), (st2, (l @ evs1) @ evs2))"
      and m2: "log_matches x evs2" by auto
    have q: "quiet evs1" using m1 Inr by simp
    have m: "log_matches x (evs1 @ evs2)" using q m2 by (rule log_matches_append)
    show ?thesis
    proof (cases x)
      case None
      have a: "scan_folder c api_key folder t st = (Scanned fo fi, st2)"
        using False g Inr h None by (simp add: scan_folder_def)
      have b: "scan_folder (logged c) api_key folder t (st, l) =
          (Scanned fo fi, (st2, l @ evs1 @ evs2))"
        using False g' Inr h' None by (simp add: scan_folder_def)
      show ?thesis using a b m None by (intro exI[of _ "evs1 @ evs2"]) simp
    next
      case (Some e)
      have a: "scan_folder c api_key folder t st = (Raised e fo fi, st2)"
        using False g Inr h Some by (simp add: scan_folder_def)
      have b: "scan_folder (logged c) api_key folder t (st, l) =
          (Raised e fo fi, (st2, l @ evs1 @ evs2))"
        using False g' Inr h' Some by (simp add: scan_folder_def)
      show ?thesis using a b m Some by (intro exI[of _ "evs1 @ evs2"]) simp
    qed
  qed
qed


subsection \<open>Search failures propagate, secondary failures do not\<close>

lemma best_effort_absent: "best_effort (absent_on_failure x) = best_effort x"
  by (cases x rule: absent_on_failure.cases) simp_all

lemma tolerant_simps:
  "client_search_movie (tolerant c) = client_search_movie c"
  "client_search_tv (tolerant c) = client_search_tv c"
  "client_get_episode_name (tolerant c) i s e st = absent_on_failure (client_get_episode_name c i s e st)"
  "client_get_movie_imdb_id (tolerant c) m st = absent_on_failure (client_get_movie_imdb_id c m st)"
  "client_get_tv_imdb_id (tolerant c) i st = absent_on_failure (client_get_tv_imdb_id c i st)"
  by (simp_all add: tolerant_def)

lemma movie_file_name_tolerant: "movie_file_name (tolerant c) = movie_file_name c"
  by (intro ext) (simp add: movie_file_name_def tolerant_simps)

lemma tv_file_name_tolerant: "tv_file_name (tolerant c) = tv_file_name c"
  by (intro ext) (simp add: tv_file_name_def tolerant_simps best_effort_absent Let_def
       split: prod.splits sum.splits option.splits)

lemma get_new_name_tolerant: "get_new_name (tolerant c) = get_new_name c"
  by (intro ext) (simp add: get_new_name_def movie_file_name_tolerant tv_file_name_tolerant Let_def
       split: option.splits)

lemma scan_files_in_tolerant:
  "scan_files_in (tolerant c) rel_dir files acc st = scan_files_in c rel_dir files acc st"
  by (induction files arbitrary: acc st)
     (simp_all add: get_new_name_tolerant split: prod.splits sum.splits)

lemma scan_files_tolerant: "scan_files (tolerant c) w acc st = scan_files c w acc st"
  by (induction w arbitrary: acc st)
     (auto simp: scan_files_in_tolerant split: prod.splits option.splits)

lemma scan_movie_root_tolerant: "scan_movie_root (tolerant c) = scan_movie_root c"
  by (intro ext) (simp add: scan_movie_root_def tolerant_simps best_effort_absent Let_def
       split: prod.splits sum.splits option.splits)

lemma scan_show_root_tolerant: "scan_show_root (tolerant c) = scan_show_root c"
  by (intro ext) (simp add: scan_show_root_def tolerant_simps best_effort_absent Let_def
       split: prod.splits sum.splits option.splits)

lemma scan_root_tolerant: "scan_root (tolerant c) = scan_root c"
  by (intro ext) (simp add: scan_root_def scan_movie_root_tolerant scan_show_root_tolerant Let_def)

lemma scan_folder_tolerant: "scan_folder (tolerant c) = scan_folder c"
  by (intro ext) (simp add: scan_folder_def scan_root_tolerant scan_files_tolerant
       split: prod.splits sum.splits option.splits)

text \<open>
  Claim C6. During a scan, an exception raised by a search call (\<open>search_movie\<close>,
  \<open>search_tv\<close>) reaches the caller of the scan: the scan ends with that exception at the
  search that raised it, and a scan that ends without exception has seen no search fail.
  An exception raised by a secondary lookup (external id, episode title) is caught and read
  as an absent field: the scan is the one of a client whose secondary lookups find nothing
  where they would raise, and it never ends with the exception of such a lookup.
\<close>

theorem scan_failure_handling:
  "(\<exists>log. scan_folder (logged c) api_key folder t (st, []) =
       (fst (scan_folder c api_key folder t st), (snd (scan_folder c api_key folder t st), log)) \<and>
     (case fst (scan_folder c api_key folder t st) of
        Raised e folder_entries file_entries \<Rightarrow> ends_in_search_failure e log
      | Scanned folder_entries file_entries \<Rightarrow> quiet log
      | Rejected msg \<Rightarrow> log = [])) \<and>
   scan_folder (tolerant c) api_key folder t st = scan_folder c api_key folder t st"
proof
  from scan_folder_logged[of c api_key folder t st "[]"] obtain evs where
    a: "scan_folder (logged c) api_key folder t (st, []) =
       (fst (scan_folder c api_key folder t st), (snd (scan_folder c api_key folder t st), evs))"
    and m: "log_matches (scan_raised (fst (scan_folder c api_key folder t st))) evs"
    by auto
  have r: "fst (scan_folder c api_key folder t st) = Rejected msg \<Longrightarrow> evs = []" for msg
  proof -
    assume j: "fst (scan_folder c api_key folder t st) = Rejected msg"
    then have "strip api_key = [] \<or> folder = [] \<or> \<not> is_dir t"
      by (auto simp: scan_folder_def split: if_splits prod.splits sum.splits option.splits)
    then have "scan_folder (logged c) api_key folder t (st, []) = (Rejected msg, (st, []))"
      using j by (auto simp: scan_folder_def split: if_splits)
    then show "evs = []" using a by simp
  qed
  show "\<exists>log. scan_folder (logged c) api_key folder t (st, []) =
       (fst (scan_folder c api_key folder t st), (snd (scan_folder c api_key folder t st), log)) \<and>
     (case fst (scan_folder c api_key folder t st) of
        Raised e folder_entries file_entries \<Rightarrow> ends_in_search_failure e log
      | Scanned folder_entries file_entries \<Rightarrow> quiet log
      | Rejected msg \<Rightarrow> log = [])"
    using a m r by (intro exI[of _ evs]) (cases "fst (scan_folder c api_key folder t st)"; simp)
next
  show "scan_folder (tolerant c) api_key folder t st = scan_folder c api_key folder t st"
    by (simp add: scan_folder_tolerant)
qed


theorem scan_failure_handling_witness:
  "scan_folder (tolerant flaky) ''key'' ''/m/Inception''
     \<lparr>is_dir = True, listdir = [(''Inception.2010.mkv'', RegularFile)],
      walk = [(''.'', [''Inception.2010.mkv''])]\<rparr> () =
     (Scanned [(''Inception'', ''Inception (2010)'')]
        [(''Inception.2010.mkv'', ''Inception (2010).mkv'')], ()) \<and>
   (\<exists>log. scan_folder (logged down) ''key'' ''/m/Inception''
       \<lparr>is_dir = True, listdir = [(''Inception.2010.mkv'', RegularFile)],
        walk = [(''.'', [''Inception.2010.mkv''])]\<rparr> ((), []) =
       (Raised (RequestException ''timeout'') [] [], ((), log)) \<and>
     ends_in_search_failure (RequestException ''timeout'') log)"
proof -
  let ?t = "\<lparr>is_dir = True, listdir = [(''Inception.2010.mkv'', RegularFile)],
      walk = [(''.'', [''Inception.2010.mkv''])]\<rparr>"
  have 1: "scan_folder flaky ''key'' ''/m/Inception'' ?t () =
     (Scanned [(''Inception'', ''Inception (2010)'')]
        [(''Inception.2010.mkv'', ''Inception (2010).mkv'')], ())"
    by code_simp
  have 2: "scan_folder down ''key'' ''/m/Inception'' ?t () =
     (Raised (RequestException ''timeout'') [] [], ())"
    by code_simp
  from scan_failure_handling[of flaky "''key''" "''/m/Inception''" ?t "()"] 1
  have a: "scan_folder (tolerant flaky) ''key'' ''/m/Inception'' ?t () =
     (Scanned [(''Inception'', ''Inception (2010)'')]
        [(''Inception.2010.mkv'', ''Inception (2010).mkv'')], ())"
    by simp
  from scan_failure_handling[of down "''key''" "''/m/Inception''" ?t "()"] 2
  have b: "\<exists>log. scan_folder (logged down) ''key'' ''/m/Inception'' ?t ((), []) =
       (Raised (RequestException ''timeout'') [] [], ((), log)) \<and>
     ends_in_search_failure (RequestException ''timeout'') log"
    by simp
  show ?thesis using a b by blast
qed


subsection \<open>Movie parsing comes first; unparsed files keep their name\<close>

lemma get_new_name_unparsed:
  "parse_movie f = None \<Longrightarrow> parse_tv f = None \<Longrightarrow> get_new_name c f st = (Inr f, st)"
  by (simp add: get_new_name_def)

lemma scan_files_in_entries:
  "scan_files_in c rel_dir files acc st = ((None, l), st') \<Longrightarrow>
   \<exists>new. l = acc @ new \<and>
     list_all2 (\<lambda>(rel_dir, f) (old_rel, new_rel). old_rel = rel_path rel_dir f \<and>
         (parse_movie f = None \<and> parse_tv f = None \<longrightarrow> new_rel = old_rel))
       (map (Pair rel_dir) files) new"
proof (induction files arbitrary: acc st)
  case Nil
  then show ?case by simp
next
  case (Cons f files)
  obtain r st1 where g: "get_new_name c f st = (r, st1)"
    by (cases "get_new_name c f st") auto
  then obtain new_file where r: "r = Inr new_file"
    using Cons.prems by (cases r) auto
  let ?e = "(rel_path rel_dir f, rel_path rel_dir new_file)"
  have "scan_files_in c rel_dir files (acc @ [?e]) st1 = ((None, l), st')"
    using Cons.prems g r by simp
  from Cons.IH[OF this] obtain new where n: "l = (acc @ [?e]) @ new"
    and a: "list_all2 (\<lambda>(rel_dir, f) (old_rel, new_rel). old_rel = rel_path rel_dir f \<and>
         (parse_movie f = None \<and> parse_tv f = None \<longrightarrow> new_rel = old_rel))
       (map (Pair rel_dir) files) new" by blast
  have "parse_movie f = None \<and> parse_tv f = None \<longrightarrow> new_file = f"
    using g r get_new_name_unparsed[of f c st] by auto
  then show ?case using n a by (intro exI[of _ "?e # new"]) auto
qed

lemma scan_files_entries:
  "scan_files c w acc st = ((None, l), st') \<Longrightarrow>
   \<exists>new. l = acc @ new \<and>
     list_all2 (\<lambda>(rel_dir, f) (old_rel, new_rel). old_rel = rel_path rel_dir f \<and>
         (parse_movie f = None \<and> parse_tv f = None \<longrightarrow> new_rel = old_rel))
       (walk_files w) new"
proof (induction w arbitrary: acc st)
  case Nil
  then show ?case by (simp add: walk_files_def)
next
  case (Cons d dirs)
  obtain rel_dir files where d: "d = (rel_dir, files)" by (cases d) auto
  obtain x acc1 st1 where g: "scan_files_in c rel_dir files acc st = ((x, acc1), st1)"
    by (cases "scan_files_in c rel_dir files acc st") auto
  have x: "x = None" using Cons.prems d g by (cases x) auto
  then have h: "scan_files c dirs acc1 st1 = ((None, l), st')" using Cons.prems d g by simp
  from scan_files_in_entries[OF g[unfolded x]] obtain new1 where n1: "acc1 = acc @ new1"
    and a1: "list_all2 (\<lambda>(rel_dir, f) (old_rel, new_rel). old_rel = rel_path rel_dir f \<and>
         (parse_movie f = None \<and> parse_tv f = None \<longrightarrow> new_rel = old_rel))
       (map (Pair rel_dir) files) new1" by blast
  from Cons.IH[OF h] obtain new2 where n2: "l = acc1 @ new2"
    and a2: "list_all2 (\<lambda>(rel_dir, f) (old_rel, new_rel). old_rel = rel_path rel_dir f \<and>
         (parse_movie f = None \<and> parse_tv f = None \<longrightarrow> new_rel = old_rel))
       (walk_files dirs) new2" by blast
  have "walk_files (d # dirs) = map (Pair rel_dir) files @ walk_files dirs"
    using d by (simp add: walk_files_def)
  then show ?case using n1 n2 a1 a2
    by (intro exI[of _ "new1 @ new2"]) (simp add: list_all2_appendI)
qed

text \<open>
  Claim C5. For every file, the naming function tries \<open>parse_movie\<close> first: when it
  matches, the name is the one of the movie branch and the only catalog call is the movie
  search; \<open>parse_tv\<close> decides only when \<open>parse_movie\<close> returns none. For every file name on
  which both return none, the name is returned unchanged without any catalog call, and the
  file entry of the scan is an identity rename, in the same relative directory.
\<close>

theorem movie_first_then_episode:
  "(\<forall>movie. parse_movie f = Some movie \<longrightarrow>
       get_new_name c f st = movie_file_name c movie (snd (splitext f)) st \<and>
       (\<exists>r. snd (snd (get_new_name (logged c) f (st, []))) = [(SearchMovie, r)])) \<and>
   (\<forall>tv. parse_movie f = None \<and> parse_tv f = Some tv \<longrightarrow>
       get_new_name c f st = tv_file_name c tv (snd (splitext f)) st) \<and>
   (parse_movie f = None \<and> parse_tv f = None \<longrightarrow> get_new_name c f st = (Inr f, st)) \<and>
   (\<forall>fo fi st'. scan_folder c api_key folder t st = (Scanned fo fi, st') \<longrightarrow>
       list_all2 (\<lambda>(rel_dir, f) (old_rel, new_rel). old_rel = rel_path rel_dir f \<and>
           (parse_movie f = None \<and> parse_tv f = None \<longrightarrow> new_rel = old_rel))
         (walk_files (walk t)) fi)"
proof (intro conjI allI impI)
  fix movie assume "parse_movie f = Some movie"
  then show "get_new_name c f st = movie_file_name c movie (snd (splitext f)) st"
    by (simp add: get_new_name_def)
next
  fix movie assume "parse_movie f = Some movie"
  then have "get_new_name (logged c) f (st, []) =
      movie_file_name (logged c) movie (snd (splitext f)) (st, [])"
    by (simp add: get_new_name_def)
  then show "\<exists>r. snd (snd (get_new_name (logged c) f (st, []))) = [(SearchMovie, r)]"
    by (simp add: movie_file_name_logged)
next
  fix tv assume "parse_movie f = None \<and> parse_tv f = Some tv"
  then show "get_new_name c f st = tv_file_name c tv (snd (splitext f)) st"
    by (simp add: get_new_name_def)
next
  assume "parse_movie f = None \<and> parse_tv f = None"
  then show "get_new_name c f st = (Inr f, st)"
    by (simp add: get_new_name_unparsed)
next
  fix fo fi st'
  assume a: "scan_folder c api_key folder t st = (Scanned fo fi, st')"
  then obtain st1 where "scan_files c (walk t) [] st1 = ((None, fi), st')"
    by (auto simp: scan_folder_def split: if_splits prod.splits sum.splits option.splits)
  from scan_files_entries[OF this]
  show "list_all2 (\<lambda>(rel_dir, f) (old_rel, new_rel). old_rel = rel_path rel_dir f \<and>
           (parse_movie f = None \<and> parse_tv f = None \<longrightarrow> new_rel = old_rel))
         (walk_files (walk t)) fi"
    by simp
qed

theorem movie_first_then_episode_witness:
  "parse_movie ''Show.2010.S01E01.mkv'' = Some \<lparr>cand_title = ''Show'', cand_year = Some 2010\<rparr> \<and>
   parse_tv ''Show.2010.S01E01.mkv'' =
     Some \<lparr>cand_show = ''Show 2010'', cand_season = 1, cand_episode = 1\<rparr> \<and>
   get_new_name offline ''Show.2010.S01E01.mkv'' () = (Inr ''Show (2010).mkv'', ()) \<and>
   parse_movie ''readme.txt'' = None \<and> parse_tv ''readme.txt'' = None \<and>
   get_new_name offline ''readme.txt'' () = (Inr ''readme.txt'', ()) \<and>
   scan_folder offline ''key'' ''/m''
     \<lparr>is_dir = True, listdir = [(''docs'', Directory)],
      walk = [(''.'', []), (''docs'', [''readme.txt''])]\<rparr> () =
     (Scanned [] [(''docs/readme.txt'', ''docs/readme.txt'')], ()) \<and>
   rel_path ''docs'' ''readme.txt'' = ''docs/readme.txt''"
proof -
  let ?t = "\<lparr>is_dir = True, listdir = [(''docs'', Directory)],
      walk = [(''.'', []), (''docs'', [''readme.txt''])]\<rparr>"
  have 1: "parse_movie ''Show.2010.S01E01.mkv'' =
      Some \<lparr>cand_title = ''Show'', cand_year = Some 2010\<rparr>" by code_simp
  have 2: "parse_tv ''Show.2010.S01E01.mkv'' =
     Some \<lparr>cand_show = ''Show 2010'', cand_season = 1, cand_episode = 1\<rparr>" by code_simp
  have 3: "movie_file_name offline \<lparr>cand_title = ''Show'', cand_year = Some 2010\<rparr>
      (snd (splitext ''Show.2010.S01E01.mkv'')) () = (Inr ''Show (2010).mkv'', ())" by code_simp
  have 4: "parse_movie ''readme.txt'' = None" by code_simp
  have 5: "parse_tv ''readme.txt'' = None" by code_simp
  have 6: "scan_folder offline ''key'' ''/m'' ?t () =
      (Scanned [] [(''docs/readme.txt'', ''docs/readme.txt'')], ())" by code_simp
  have 7: "walk_files (walk ?t) = [(''docs'', ''readme.txt'')]" by (simp add: walk_files_def)
  have a: "get_new_name offline ''Show.2010.S01E01.mkv'' () = (Inr ''Show (2010).mkv'', ())"
    using movie_first_then_episode[of "''Show.2010.S01E01.mkv''" offline "()"] 1 3 by simp
  have b: "get_new_name offline ''readme.txt'' () = (Inr ''readme.txt'', ())"
    using movie_first_then_episode[of "''readme.txt''" offline "()"] 4 5 by simp
  have "list_all2 (\<lambda>(rel_dir, f) (old_rel, new_rel). old_rel = rel_path rel_dir f \<and>
           (parse_movie f = None \<and> parse_tv f = None \<longrightarrow> new_rel = old_rel))
     [(''docs'', ''readme.txt'')] [(''docs/readme.txt'', ''docs/readme.txt'')]"
    using movie_first_then_episode[of "''readme.txt''" offline "()" "''key''" "''/m''" ?t] 6 7
    by (elim conjE allE[of _ "[]"], elim allE[of _ "[(''docs/readme.txt'', ''docs/readme.txt'')]"] allE[of _ "()"]) simp
  then have c: "rel_path ''docs'' ''readme.txt'' = ''docs/readme.txt''" by simp
  show ?thesis using 1 2 4 5 6 a b c by blast
qed

subsection \<open>The place of the root entry among the folder entries\<close>

lemma scan_movie_root_entries:
  "scan_movie_root c b f0 st = (Inr fo, st') \<Longrightarrow> fo = [] \<or> (\<exists>n. fo = [(b, n)])"
  by (auto simp: scan_movie_root_def Let_def split: option.splits prod.splits sum.splits)

lemma scan_show_root_entries:
  "scan_show_root c b w st = (Inr fo, st') \<Longrightarrow>
     fo = [] \<or> (\<exists>n m. fo = (b, n) # map (\<lambda>(old_dir, season). (old_dir, ''Season '' @ fmt02 season)) m)"
  unfolding scan_show_root_def Let_def
  by (auto split: option.splits prod.splits sum.splits if_splits)

lemma scan_root_entries:
  "scan_root c b t st = (Inr fo, st') \<Longrightarrow>
     fo = [] \<or> (\<exists>n m. fo = (b, n) # map (\<lambda>(old_dir, season). (old_dir, ''Season '' @ fmt02 season)) m)"
proof -
  assume a: "scan_root c b t st = (Inr fo, st')"
  then consider f0 where "scan_movie_root c b f0 st = (Inr fo, st')"
    | "scan_show_root c b (walk t) st = (Inr fo, st')"
    by (auto simp: scan_root_def Let_def split: if_splits)
  then show ?thesis
  proof cases
    case 1
    from scan_movie_root_entries[OF this] show ?thesis by (auto intro: exI[of _ "[]"])
  next
    case 2
    from scan_show_root_entries[OF this] show ?thesis .
  qed
qed


text \<open>
  Claim C2, as the code has it. For every scan that produces a root-folder rename entry,
  that entry occupies the first position of the folder-entry sequence the scan builds: its
  old name is the base name of the root, and every entry after it is a season-folder
  entry, named \<open>Season\<close> and the season number on two digits.
\<close>

theorem root_entry_first:
  assumes "scan_folder c api_key folder t st = (res, st')"
    and "res = Scanned fo fi \<or> res = Raised e fo fi"
    and "fo \<noteq> []"
  shows "fst (hd fo) = basename folder \<and>
    (\<forall>x\<in>set (tl fo). \<exists>season. snd x = ''Season '' @ fmt02 season)"
proof -
  from assms obtain st0 st1 where "scan_root c (basename folder) t st0 = (Inr fo, st1)"
    by (auto simp: scan_folder_def split: if_splits prod.splits sum.splits option.splits)
  from scan_root_entries[OF this] assms(3) obtain n m where
    "fo = (basename folder, n) # map (\<lambda>(old_dir, season). (old_dir, ''Season '' @ fmt02 season)) m"
    by blast
  then show ?thesis by auto
qed

theorem root_entry_first_witness:
  "scan_folder flaky ''key'' ''/m/Show''
     \<lparr>is_dir = True, listdir = [(''s1'', Directory)],
      walk = [(''.'', []), (''s1'', [''Show.S01E02.mkv''])]\<rparr> () =
     (Scanned [(''Show'', ''Show (2008)''), (''s1'', ''Season 01'')]
        [(''s1/Show.S01E02.mkv'', ''s1/Show - S01E02.mkv'')], ()) \<and>
   fst (hd [(''Show'', ''Show (2008)''), (''s1'', ''Season 01'')]) = basename ''/m/Show'' \<and>
   (\<exists>season. snd (''s1'', ''Season 01'') = ''Season '' @ fmt02 season)"
proof -
  let ?t = "\<lparr>is_dir = True, listdir = [(''s1'', Directory)],
      walk = [(''.'', []), (''s1'', [''Show.S01E02.mkv''])]\<rparr>"
  have s: "scan_folder flaky ''key'' ''/m/Show'' ?t () =
      (Scanned [(''Show'', ''Show (2008)''), (''s1'', ''Season 01'')]
         [(''s1/Show.S01E02.mkv'', ''s1/Show - S01E02.mkv'')], ())"
    by code_simp
  from root_entry_first[OF s, of "[(''Show'', ''Show (2008)''), (''s1'', ''Season 01'')]"
      "[(''s1/Show.S01E02.mkv'', ''s1/Show - S01E02.mkv'')]" "KeyError []"] s
  show ?thesis by simp
qed

theorem root_entry_not_last:
  "scan_folder flaky ''key'' ''/m/Show''
     \<lparr>is_dir = True, listdir = [(''s1'', Directory)],
      walk = [(''.'', []), (''s1'', [''Show.S01E02.mkv''])]\<rparr> () =
     (Scanned [(''Show'', ''Show (2008)''), (''s1'', ''Season 01'')]
        [(''s1/Show.S01E02.mkv'', ''s1/Show - S01E02.mkv'')], ()) \<and>
   basename ''/m/Show'' = ''Show'' \<and>
   last [(''Show'', ''Show (2008)''), (''s1'', ''Season 01'')] = (''s1'', ''Season 01'') \<and>
   [(''Show'', ''Show (2008)''), (''s1'', ''Season 01'')] ! 0 = (''Show'', ''Show (2008)'')"
proof -
  have "scan_folder flaky ''key'' ''/m/Show''
     \<lparr>is_dir = True, listdir = [(''s1'', Directory)],
      walk = [(''.'', []), (''s1'', [''Show.S01E02.mkv''])]\<rparr> () =
     (Scanned [(''Show'', ''Show (2008)''), (''s1'', ''Season 01'')]
        [(''s1/Show.S01E02.mkv'', ''s1/Show - S01E02.mkv'')], ())"
    by code_simp
  moreover have "basename ''/m/Show'' = ''Show''" by code_simp
  ultimately show ?thesis by simp
qed


subsection \<open>Directory and extension of a file entry\<close>

text \<open>
  Claim C10 fails on the code. A file entry of the scan can leave its directory: the
  catalog title \<open>Face/Off\<close> goes into the new name as it is, and the new relative path is
  then in the directory \<open>Face\<close>. It can also lose its extension: \<open>.720p.mkv\<close> becomes
  \<open>.mkv\<close>, a name without extension.
\<close>

theorem file_entry_leaves_directory:
  "scan_folder faceoff ''key'' ''/m''
     \<lparr>is_dir = True,
      listdir = [(''Face.Off.1997.mkv'', RegularFile), (''notes.txt'', RegularFile)],
      walk = [(''.'', [''Face.Off.1997.mkv'', ''notes.txt''])]\<rparr> () =
     (Scanned [] [(''Face.Off.1997.mkv'', ''Face/Off (1997).mkv''),
                  (''notes.txt'', ''notes.txt'')], ()) \<and>
   dirname ''Face.Off.1997.mkv'' = [] \<and>
   dirname ''Face/Off (1997).mkv'' = ''Face'' \<and>
   get_new_name offline ''.720p.mkv'' () = (Inr ''.mkv'', ()) \<and>
   snd (splitext ''.720p.mkv'') = ''.mkv'' \<and>
   snd (splitext ''.mkv'') = []"
  by code_simp


subsection \<open>Naming a name that is already in target form\<close>


















section \<open>Properties of the executor\<close>

lemma probe_rename:
  "fs_rename (probe ops) src dst (fs, l) =
     (fst (fs_rename ops src dst fs), (snd (fs_rename ops src dst fs), l @ [Rename src dst]))"
  by (simp add: probe_def split: prod.splits)

lemma probe_makedirs:
  "fs_makedirs (probe ops) p (fs, l) =
     (fst (fs_makedirs ops p fs), (snd (fs_makedirs ops p fs), l @ [Makedirs p]))"
  by (simp add: probe_def split: prod.splits)

lemma probe_exists: "fs_exists (probe ops) p (fs, l) = fs_exists ops p fs"
  by (simp add: probe_def)

lemma rename_subfolders_probe:
  "rename_subfolders (probe ops) folder b entries errors (fs, l) =
     (fst (rename_subfolders ops folder b entries errors fs),
      (snd (rename_subfolders ops folder b entries errors fs),
       l @ map (\<lambda>(old_dir, new_dir). Rename (path_join folder old_dir) (path_join folder new_dir))
             (filter (\<lambda>(old_dir, new_dir). old_dir \<noteq> b) entries)))"
proof (induction entries arbitrary: errors fs l)
  case Nil
  then show ?case by simp
next
  case (Cons x entries)
  obtain old_dir new_dir where x: "x = (old_dir, new_dir)" by (cases x) auto
  show ?case
  proof (cases "old_dir = b")
    case True
    then show ?thesis using Cons[of errors fs l] x by simp
  next
    case False
    let ?src = "path_join folder old_dir" and ?dst = "path_join folder new_dir"
    obtain r fs1 where g: "fs_rename ops ?src ?dst fs = (r, fs1)"
      by (cases "fs_rename ops ?src ?dst fs") auto
    show ?thesis
    proof (cases r)
      case None
      from Cons[of errors fs1 "l @ [Rename ?src ?dst]"] show ?thesis
        using x False g None by (simp add: probe_rename)
    next
      case (Some e)
      from Cons[of "errors @ [''Folder '' @ old_dir @ '': '' @ exn_text e]" fs1
          "l @ [Rename ?src ?dst]"] show ?thesis
        using x False g Some by (simp add: probe_rename)
    qed
  qed
qed

lemma rename_root_probe:
  "rename_root (probe ops) folder b entries errors (fs, l) =
     (fst (rename_root ops folder b entries errors fs),
      (snd (rename_root ops folder b entries errors fs),
       l @ map (\<lambda>(old_dir, new_dir). Rename folder (path_join (dirname folder) new_dir))
             (filter (\<lambda>(old_dir, new_dir). old_dir = b) entries)))"
proof (induction entries arbitrary: errors fs l)
  case Nil
  then show ?case by simp
next
  case (Cons x entries)
  obtain old_dir new_dir where x: "x = (old_dir, new_dir)" by (cases x) auto
  show ?case
  proof (cases "old_dir = b")
    case False
    then show ?thesis using Cons[of errors fs l] x by simp
  next
    case True
    let ?dst = "path_join (dirname folder) new_dir"
    obtain r fs1 where g: "fs_rename ops folder ?dst fs = (r, fs1)"
      by (cases "fs_rename ops folder ?dst fs") auto
    show ?thesis
    proof (cases r)
      case None
      from Cons[of errors fs1 "l @ [Rename folder ?dst]"] show ?thesis
        using x True g None by (simp add: probe_rename Let_def)
    next
      case (Some e)
      from Cons[of "errors @ [''Root folder '' @ old_dir @ '': '' @ exn_text e]" fs1
          "l @ [Rename folder ?dst]"] show ?thesis
        using x True g Some by (simp add: probe_rename Let_def)
    qed
  qed
qed

text \<open>The step of the file loop that may create the target directory.\<close>

lemma rename_file_entries_probe:
  "\<exists>evs k. rename_file_entries (probe ops) folder entries errors (fs, l) =
       (fst (rename_file_entries ops folder entries errors fs),
        (snd (rename_file_entries ops folder entries errors fs), l @ evs)) \<and>
     k \<le> length entries \<and>
     filter is_rename evs =
       map (\<lambda>(orig_rel, new_rel). Rename (path_join folder orig_rel) (path_join folder new_rel))
         (take k entries) \<and>
     ((\<forall>e. fst (rename_file_entries ops folder entries errors fs) \<noteq> Inl e) \<longrightarrow>
        k = length entries) \<and>
     ((\<forall>p s. fst (fs_makedirs ops p s) = None) \<longrightarrow>
        (\<forall>e. fst (rename_file_entries ops folder entries errors fs) \<noteq> Inl e))"
proof (induction entries arbitrary: errors fs l)
  case Nil
  then show ?case by (intro exI[of _ "[]"] exI[of _ 0]) simp
next
  case (Cons x entries)
  obtain orig_rel new_rel where x: "x = (orig_rel, new_rel)" by (cases x) auto
  let ?src = "path_join folder orig_rel" and ?dst = "path_join folder new_rel"
  let ?dir = "dirname ?dst"
  let ?need = "?dir \<noteq> [] \<and> \<not> fs_exists ops ?dir fs"
  obtain m fs1 where mk: "(if ?need then fs_makedirs ops ?dir fs else (None, fs)) = (m, fs1)"
    by (cases "if ?need then fs_makedirs ops ?dir fs else (None, fs)") auto
  let ?l1 = "if ?need then l @ [Makedirs ?dir] else l"
  have mk': "(if ?dir \<noteq> [] \<and> \<not> fs_exists (probe ops) ?dir (fs, l)
              then fs_makedirs (probe ops) ?dir (fs, l) else (None, (fs, l))) = (m, (fs1, ?l1))"
    using mk by (auto simp: probe_exists probe_makedirs split: if_splits)
  have total: "(\<forall>p s. fst (fs_makedirs ops p s) = None) \<longrightarrow> m = None"
  proof
    assume a: "\<forall>p s. fst (fs_makedirs ops p s) = None"
    show "m = None"
    proof (cases ?need)
      case True
      then have "fs_makedirs ops ?dir fs = (m, fs1)" using mk by simp
      then show ?thesis using a by (metis fst_conv)
    next
      case False
      then show ?thesis using mk by (auto split: if_splits)
    qed
  qed
  show ?case
  proof (cases m)
    case (Some e)
    have a: "rename_file_entries ops folder (x # entries) errors fs = (Inl e, fs1)"
      using x mk Some by (simp add: Let_def)
    have b: "rename_file_entries (probe ops) folder (x # entries) errors (fs, l) =
        (Inl e, (fs1, ?l1))"
      using x mk' Some by (simp add: Let_def)
    show ?thesis
      using a b total Some
      by (intro exI[of _ "if ?need then [Makedirs ?dir] else []"] exI[of _ 0]) auto
  next
    case None
    obtain r fs2 where g: "fs_rename ops ?src ?dst fs1 = (r, fs2)"
      by (cases "fs_rename ops ?src ?dst fs1") auto
    let ?errors = "case r of Some e \<Rightarrow> errors @ [''File '' @ orig_rel @ '': '' @ exn_text e]
                   | None \<Rightarrow> errors"
    have a: "rename_file_entries ops folder (x # entries) errors fs =
        rename_file_entries ops folder entries ?errors fs2"
      using x mk None g by (cases r) (simp_all add: Let_def)
    have b: "rename_file_entries (probe ops) folder (x # entries) errors (fs, l) =
        rename_file_entries (probe ops) folder entries ?errors (fs2, ?l1 @ [Rename ?src ?dst])"
      using x mk' None g by (cases r) (simp_all add: Let_def probe_rename)
    from Cons[of ?errors fs2 "?l1 @ [Rename ?src ?dst]"] obtain evs k where
      i: "rename_file_entries (probe ops) folder entries ?errors (fs2, ?l1 @ [Rename ?src ?dst]) =
         (fst (rename_file_entries ops folder entries ?errors fs2),
          (snd (rename_file_entries ops folder entries ?errors fs2), (?l1 @ [Rename ?src ?dst]) @ evs))"
      and k: "k \<le> length entries"
      and f: "filter is_rename evs =
         map (\<lambda>(orig_rel, new_rel). Rename (path_join folder orig_rel) (path_join folder new_rel))
           (take k entries)"
      and c: "(\<forall>e. fst (rename_file_entries ops folder entries ?errors fs2) \<noteq> Inl e) \<longrightarrow>
          k = length entries"
      and t: "(\<forall>p s. fst (fs_makedirs ops p s) = None) \<longrightarrow>
          (\<forall>e. fst (rename_file_entries ops folder entries ?errors fs2) \<noteq> Inl e)"
      by blast
    let ?evs = "(if ?need then [Makedirs ?dir] else []) @ [Rename ?src ?dst] @ evs"
    have l: "(?l1 @ [Rename ?src ?dst]) @ evs = l @ ?evs" by simp
    show ?thesis
      unfolding a b i l
      using k f c t x
      by (intro exI[of _ ?evs] exI[of _ "Suc k"]) auto
  qed
qed


lemma filter_is_rename_map:
  "\<forall>x\<in>set xs. is_rename (f x) \<Longrightarrow> filter is_rename (map f xs) = map f xs"
  by (induction xs) auto

text \<open>
  Claim C1, as the code has it. For every plan and every non-empty root path, the executor
  applies the renames in this order and no other: the file entries in plan order, then the
  folder entries whose old name differs from the base name of the root in plan order, and
  last the folder entries whose old name is the base name of the root, each resolved as a
  sibling of the root. The renames applied are always an initial part of that sequence, and
  the whole of it whenever no exception leaves the executor, which is the case when no
  creation of a target directory raises. With an empty root path nothing is applied.
\<close>

theorem rename_order:
  assumes "folder \<noteq> []"
  shows "\<exists>log k. rename_files (probe ops) folder file_entries folder_entries (fs, []) =
       (fst (rename_files ops folder file_entries folder_entries fs),
        (snd (rename_files ops folder file_entries folder_entries fs), log)) \<and>
     k \<le> length (planned_renames folder file_entries folder_entries) \<and>
     filter is_rename log = take k (planned_renames folder file_entries folder_entries) \<and>
     ((\<forall>e. fst (rename_files ops folder file_entries folder_entries fs) \<noteq> Propagated e) \<longrightarrow>
        filter is_rename log = planned_renames folder file_entries folder_entries) \<and>
     ((\<forall>p s. fst (fs_makedirs ops p s) = None) \<longrightarrow>
        (\<forall>e. fst (rename_files ops folder file_entries folder_entries fs) \<noteq> Propagated e))"
proof -
  let ?F = "map (\<lambda>(orig_rel, new_rel). Rename (path_join folder orig_rel) (path_join folder new_rel))"
  let ?S = "map (\<lambda>(old_dir, new_dir). Rename (path_join folder old_dir) (path_join folder new_dir))
       (filter (\<lambda>(old_dir, new_dir). old_dir \<noteq> basename folder) folder_entries)"
  let ?R = "map (\<lambda>(old_dir, new_dir). Rename folder (path_join (dirname folder) new_dir))
       (filter (\<lambda>(old_dir, new_dir). old_dir = basename folder) folder_entries)"
  have p: "planned_renames folder file_entries folder_entries = ?F file_entries @ ?S @ ?R"
    by (simp add: planned_renames_def)
  have rn: "filter is_rename ?S = ?S" "filter is_rename ?R = ?R"
    by (rule filter_is_rename_map, simp add: case_prod_beta)+
  obtain r fs1 where g: "rename_file_entries ops folder file_entries [] fs = (r, fs1)"
    by (cases "rename_file_entries ops folder file_entries [] fs") auto
  from rename_file_entries_probe[of ops folder file_entries "[]" fs "[]"] obtain evs k where
    g0: "rename_file_entries (probe ops) folder file_entries [] (fs, []) =
       (fst (rename_file_entries ops folder file_entries [] fs),
        (snd (rename_file_entries ops folder file_entries [] fs), [] @ evs))"
    and k: "k \<le> length file_entries"
    and f: "filter is_rename evs = ?F (take k file_entries)"
    and c0: "(\<forall>e. fst (rename_file_entries ops folder file_entries [] fs) \<noteq> Inl e) \<longrightarrow>
        k = length file_entries"
    and t0: "(\<forall>p s. fst (fs_makedirs ops p s) = None) \<longrightarrow>
        (\<forall>e. fst (rename_file_entries ops folder file_entries [] fs) \<noteq> Inl e)"
    by blast
  have g': "rename_file_entries (probe ops) folder file_entries [] (fs, []) = (r, (fs1, evs))"
    using g0 g by simp
  have c: "(\<forall>e. r \<noteq> Inl e) \<longrightarrow> k = length file_entries" using c0 g by simp
  have t: "(\<forall>p s. fst (fs_makedirs ops p s) = None) \<longrightarrow> (\<forall>e. r \<noteq> Inl e)"
    using t0 g by simp
  show ?thesis
  proof (cases r)
    case (Inl e)
    have a: "rename_files ops folder file_entries folder_entries fs = (Propagated e, fs1)"
      using assms g Inl by (simp add: rename_files_def)
    have b: "rename_files (probe ops) folder file_entries folder_entries (fs, []) =
        (Propagated e, (fs1, evs))"
      using assms g' Inl by (simp add: rename_files_def)
    have "filter is_rename evs = take k (planned_renames folder file_entries folder_entries)"
      using f k by (simp add: p take_map)
    moreover have "k \<le> length (planned_renames folder file_entries folder_entries)"
      using k by (simp add: p)
    moreover have "\<not> (\<forall>p s. fst (fs_makedirs ops p s) = None)" using t Inl by blast
    ultimately show ?thesis unfolding a b
      by (intro exI[of _ evs] exI[of _ k]) simp
  next
    case (Inr errors1)
    let ?b = "basename folder"
    obtain errors2 fs2 where s: "rename_subfolders ops folder ?b folder_entries errors1 fs1 =
        (errors2, fs2)"
      by (cases "rename_subfolders ops folder ?b folder_entries errors1 fs1") auto
    obtain errors3 fs3 where ro: "rename_root ops folder ?b folder_entries errors2 fs2 =
        (errors3, fs3)"
      by (cases "rename_root ops folder ?b folder_entries errors2 fs2") auto
    have s': "rename_subfolders (probe ops) folder ?b folder_entries errors1 (fs1, evs) =
        (errors2, (fs2, evs @ ?S))"
      using rename_subfolders_probe[of ops folder ?b folder_entries errors1 fs1 evs] s by simp
    have ro': "rename_root (probe ops) folder ?b folder_entries errors2 (fs2, evs @ ?S) =
        (errors3, (fs3, (evs @ ?S) @ ?R))"
      using rename_root_probe[of ops folder ?b folder_entries errors2 fs2 "evs @ ?S"] ro by simp
    let ?d = "if errors3 \<noteq> [] then ShowError ''Errors occurred'' (join_lines errors3)
              else ShowInfo ''Success'' ''Files renamed successfully''"
    have a: "rename_files ops folder file_entries folder_entries fs = (Finished errors3 ?d, fs3)"
      using assms g Inr s ro by (simp add: rename_files_def Let_def)
    have b: "rename_files (probe ops) folder file_entries folder_entries (fs, []) =
        (Finished errors3 ?d, (fs3, (evs @ ?S) @ ?R))"
      using assms g' Inr s' ro' by (simp add: rename_files_def Let_def)
    have kk: "k = length file_entries" using c Inr by simp
    have "filter is_rename ((evs @ ?S) @ ?R) = ?F file_entries @ ?S @ ?R"
      using f kk rn by simp
    then have e: "filter is_rename ((evs @ ?S) @ ?R) =
        planned_renames folder file_entries folder_entries"
      by (simp only: p)
    show ?thesis
      unfolding a b
      using e
      by (intro exI[of _ "(evs @ ?S) @ ?R"]
          exI[of _ "length (planned_renames folder file_entries folder_entries)"]) simp
  qed
qed


theorem rename_order_witness:
  "''/m/Show'' \<noteq> [] \<and>
   planned_renames ''/m/Show'' [(''s1/a.mkv'', ''s1/b.mkv'')]
     [(''Show'', ''Show (2008)''), (''s1'', ''Season 01'')] =
     [Rename ''/m/Show/s1/a.mkv'' ''/m/Show/s1/b.mkv'',
      Rename ''/m/Show/s1'' ''/m/Show/Season 01'',
      Rename ''/m/Show'' ''/m/Show (2008)''] \<and>
   (\<exists>log fs'. rename_files (probe plain_fs) ''/m/Show'' [(''s1/a.mkv'', ''s1/b.mkv'')]
        [(''Show'', ''Show (2008)''), (''s1'', ''Season 01'')]
        ([''/m/Show'', ''/m/Show/s1'', ''/m/Show/s1/a.mkv''], []) =
        (Finished [] (ShowInfo ''Success'' ''Files renamed successfully''), (fs', log)) \<and>
      filter is_rename log =
        [Rename ''/m/Show/s1/a.mkv'' ''/m/Show/s1/b.mkv'',
         Rename ''/m/Show/s1'' ''/m/Show/Season 01'',
         Rename ''/m/Show'' ''/m/Show (2008)''])"
proof -
  let ?files = "[(''s1/a.mkv'', ''s1/b.mkv'')]"
  let ?folders = "[(''Show'', ''Show (2008)''), (''s1'', ''Season 01'')]"
  let ?fs = "[''/m/Show'', ''/m/Show/s1'', ''/m/Show/s1/a.mkv'']"
  have n: "''/m/Show'' \<noteq> []" by simp
  have p: "planned_renames ''/m/Show'' ?files ?folders =
     [Rename ''/m/Show/s1/a.mkv'' ''/m/Show/s1/b.mkv'',
      Rename ''/m/Show/s1'' ''/m/Show/Season 01'',
      Rename ''/m/Show'' ''/m/Show (2008)'']"
    by code_simp
  have r: "fst (rename_files plain_fs ''/m/Show'' ?files ?folders ?fs) =
      Finished [] (ShowInfo ''Success'' ''Files renamed successfully'')"
    by code_simp
  from rename_order[OF n, of plain_fs ?files ?folders ?fs] obtain log where
    "rename_files (probe plain_fs) ''/m/Show'' ?files ?folders (?fs, []) =
       (fst (rename_files plain_fs ''/m/Show'' ?files ?folders ?fs),
        (snd (rename_files plain_fs ''/m/Show'' ?files ?folders ?fs), log))"
    and "(\<forall>e. fst (rename_files plain_fs ''/m/Show'' ?files ?folders ?fs) \<noteq> Propagated e) \<longrightarrow>
        filter is_rename log = planned_renames ''/m/Show'' ?files ?folders"
    by blast
  then have "rename_files (probe plain_fs) ''/m/Show'' ?files ?folders (?fs, []) =
       (Finished [] (ShowInfo ''Success'' ''Files renamed successfully''),
        (snd (rename_files plain_fs ''/m/Show'' ?files ?folders ?fs), log)) \<and>
     filter is_rename log =
       [Rename ''/m/Show/s1/a.mkv'' ''/m/Show/s1/b.mkv'',
        Rename ''/m/Show/s1'' ''/m/Show/Season 01'',
        Rename ''/m/Show'' ''/m/Show (2008)'']"
    using r p by simp
  then show ?thesis using n p by blast
qed

text \<open>
  Claim C1 fails on the code at the empty root path: the executor returns at once and
  applies none of the renames of the plan.
\<close>

theorem empty_root_applies_nothing:
  "rename_files (probe plain_fs) [] [(''a.mkv'', ''b.mkv'')] [] ([''a.mkv''], []) =
     (Returned_early, ([''a.mkv''], [])) \<and>
   planned_renames [] [(''a.mkv'', ''b.mkv'')] [] = [Rename ''a.mkv'' ''b.mkv'']"
  by code_simp

text \<open>
  Claim C7 fails on the code. In a read-only folder, the plan of two file entries whose
  first new name holds a slash: \<open>os.makedirs\<close> raises outside the \<open>try\<close>, so the
  exception leaves the executor, the second entry is never attempted and nothing is
  reported. With a first new name in the same directory both failures are recorded and
  reported, as the claim says.
\<close>

theorem makedirs_failure_aborts_batch:
  "rename_files (probe readonly_fs) ''/m''
     [(''a.mkv'', ''Face/Off (1997).mkv''), (''b.mkv'', ''B (2000).mkv'')] []
     ([''/m'', ''/m/a.mkv'', ''/m/b.mkv''], []) =
     (Propagated (OSError ''Permission denied''),
      ([''/m'', ''/m/a.mkv'', ''/m/b.mkv''], [Makedirs ''/m/Face''])) \<and>
   rename_files (probe readonly_fs) ''/m''
     [(''a.mkv'', ''Face Off (1997).mkv''), (''b.mkv'', ''B (2000).mkv'')] []
     ([''/m'', ''/m/a.mkv'', ''/m/b.mkv''], []) =
     (Finished [''File a.mkv: Permission denied'', ''File b.mkv: Permission denied'']
        (ShowError ''Errors occurred''
           (''File a.mkv: Permission denied'' @ [CHR 0x0A] @ ''File b.mkv: Permission denied'')),
      ([''/m'', ''/m/a.mkv'', ''/m/b.mkv''],
       [Rename ''/m/a.mkv'' ''/m/Face Off (1997).mkv'', Rename ''/m/b.mkv'' ''/m/B (2000).mkv'']))"
  by code_simp


end
